theory Spec2Isabelle
  imports Main "HOL-Library.Sublist"
begin

section \<open>Data model (vrs.go, lines 15-37)\<close>

text \<open>
  The structs of the package are records with the field names of the source. Go pointers
  that may be nil (\<^verbatim>\<open>*Sync\<close>, \<^verbatim>\<open>*Profile\<close>, the options arguments) are
  \<open>option\<close> values, \<open>None\<close> being nil. Strings are byte sequences, as in Go.
\<close>

definition VrsConfigFileName :: string where
  "VrsConfigFileName = ''vrs.yml''"

record SyncFile =
  Name :: string
  Pattern :: string

record Sync =
  Files :: "SyncFile list"

record Profile =
  Name :: string
  Sync :: "Sync option"

record VrsConfig =
  Version :: string
  Sync :: "Sync option"
  Profiles :: "Profile option list"

text \<open>
  The three option structs have the same first three fields; \<open>BumpOptions\<close> adds
  the list of active profiles.
\<close>

record Options =
  Basedir :: string
  GitCommit :: bool
  GitPush :: bool

type_synonym InitOptions = Options

type_synonym ReadCurrentOptions = Options

record BumpOptions = Options +
  ActiveProfiles :: "string list"

section \<open>Errors and panics\<close>

text \<open>
  \<open>NoVersioonFileFound\<close> is the sentinel of line 37. The other constructors stand for the
  error values of the libraries the package calls: \<open>PathError\<close> for package os (with the
  errno that \<open>os.IsNotExist\<close> inspects), \<open>YamlError\<close> and \<open>RegexpError\<close> with the
  message of the library, \<open>NumError\<close> for strconv, \<open>ExecError\<close> for a command that
  exits with a nonzero status or cannot start, \<open>GetwdError\<close> for \<open>os.Getwd\<close>.
  A library can only produce its own kind of error, never the sentinel.
\<close>

datatype errno = ENOENT | EACCES

datatype error =
    NoVersioonFileFound
  | PathError errno
  | YamlError string
  | NumError
  | RegexpError string
  | ExecError
  | GetwdError

text \<open>A Go call either returns or panics (index out of range, nil dereference).\<close>

datatype 'a go = Return 'a | Panic

definition os_IsNotExist :: "error \<Rightarrow> bool" where
  "os_IsNotExist e = (e = PathError ENOENT)"

section \<open>Package strings\<close>

text \<open>
  \<open>strings.Split\<close> with a non-empty separator cuts at the successive leftmost
  occurrences of the separator. With an empty separator Go cuts after each UTF-8
  sequence; the bytewise version stands here, the program only ever splits at a dot.
\<close>

fun split_from :: "string \<Rightarrow> string \<Rightarrow> string \<Rightarrow> string list" where
  "split_from sep acc [] = [acc]"
| "split_from sep acc (c # cs) =
     (if prefix sep (c # cs) then acc # split_from sep [] (drop (length sep - 1) cs)
      else split_from sep (acc @ [c]) cs)"

definition Split :: "string \<Rightarrow> string \<Rightarrow> string list" where
  "Split s sep = (if sep = [] then map (\<lambda>c. [c]) s else split_from sep [] s)"

fun Join :: "string list \<Rightarrow> string \<Rightarrow> string" where
  "Join [] sep = []"
| "Join [x] sep = x"
| "Join (x # y # ys) sep = x @ sep @ Join (y # ys) sep"

text \<open>
  \<open>strings.ReplaceAll\<close> replaces the successive leftmost non-overlapping occurrences
  of a non-empty \<open>old\<close>. With an empty \<open>old\<close> Go inserts \<open>new\<close> before the string and
  after each UTF-8 sequence (bytewise here); line 243 keeps that case away.
\<close>

fun replace_from :: "string \<Rightarrow> string \<Rightarrow> string \<Rightarrow> string" where
  "replace_from old new [] = []"
| "replace_from old new (c # cs) =
     (if prefix old (c # cs) then new @ replace_from old new (drop (length old - 1) cs)
      else c # replace_from old new cs)"

definition ReplaceAll :: "string \<Rightarrow> string \<Rightarrow> string \<Rightarrow> string" where
  "ReplaceAll s old new =
     (if old = [] then new @ concat (map (\<lambda>c. c # new) s) else replace_from old new s)"

section \<open>Package strconv and the \<open>%d\<close> verb of fmt\<close>

text \<open>
  Go's \<open>int\<close> is 64 bits wide on the platforms the tool is built for
  (\<open>strconv.IntSize = 64\<close>). Values of type \<open>int\<close> are integers between \<open>minInt\<close>
  and \<open>maxInt\<close>; \<open>wrapInt\<close> is the two's complement wrap-around of an arithmetic result.
\<close>

definition maxInt :: int where
  "maxInt = 2 ^ 63 - 1"

definition minInt :: int where
  "minInt = - (2 ^ 63)"

definition wrapInt :: "int \<Rightarrow> int" where
  "wrapInt i = (i + 2 ^ 63) mod 2 ^ 64 - 2 ^ 63"

definition isDigit :: "char \<Rightarrow> bool" where
  "isDigit c = (48 \<le> (of_char c :: nat) \<and> (of_char c :: nat) \<le> 57)"

definition digitVal :: "char \<Rightarrow> nat" where
  "digitVal c = of_char c - 48"

fun decimal :: "nat \<Rightarrow> string \<Rightarrow> nat" where
  "decimal n [] = n"
| "decimal n (c # cs) = decimal (n * 10 + digitVal c) cs"

text \<open>
  \<open>strconv.Atoi\<close>: an optional sign, then one or more decimal digits and nothing else;
  the value must fit an \<open>int\<close>. Both failures (syntax, range) are a \<open>*NumError\<close>.
\<close>

definition Atoi :: "string \<Rightarrow> error + int" where
  "Atoi s =
     (let neg = (s \<noteq> [] \<and> hd s = CHR ''-'');
          ds = (if s \<noteq> [] \<and> (hd s = CHR ''-'' \<or> hd s = CHR ''+'') then tl s else s);
          v = (if neg then - int (decimal 0 ds) else int (decimal 0 ds))
      in if ds = [] \<or> \<not> list_all isDigit ds then Inl NumError
         else if v < minInt \<or> maxInt < v then Inl NumError
         else Inr v)"

definition digitChar :: "nat \<Rightarrow> char" where
  "digitChar d = ''0123456789'' ! d"

fun natDigits :: "nat \<Rightarrow> string" where
  "natDigits n = (if n < 10 then [digitChar n] else natDigits (n div 10) @ [digitChar (n mod 10)])"

declare natDigits.simps [simp del]

definition formatInt :: "int \<Rightarrow> string" where
  "formatInt i = (if i < 0 then CHR ''-'' # natDigits (nat (- i)) else natDigits (nat i))"

text \<open>\<open>fmt.Sprintf("%s.%d.%s", a, n, b)\<close> of line 194.\<close>

definition Sprintf_version :: "string \<Rightarrow> int \<Rightarrow> string \<Rightarrow> string" where
  "Sprintf_version a n b = a @ ''.'' @ formatInt n @ ''.'' @ b"

section \<open>The outside world: files, working directory, commands\<close>

text \<open>
  The file system maps a path to the content of the regular file there. A path in
  \<open>unreadable\<close> exists but cannot be opened for reading (a directory, missing
  permission); a path in \<open>unwritable\<close> cannot be opened for writing. \<open>cwd\<close> is the
  working directory, \<open>None\<close> when \<open>os.Getwd\<close> fails. An external command changes
  nothing but the history; whether it exits with status zero is decided by \<open>exit_ok\<close>
  from what happened before, the directory and the argument vector. The history records
  every file write and every command run, oldest first.
\<close>

datatype event =
    Wrote string string
  | Ran string "string list" bool

record world =
  files :: "string \<rightharpoonup> string"
  unreadable :: "string set"
  unwritable :: "string set"
  cwd :: "string option"
  exit_ok :: "event list \<Rightarrow> string \<Rightarrow> string list \<Rightarrow> bool"
  history :: "event list"

definition os_Stat :: "world \<Rightarrow> string \<Rightarrow> error option" where
  "os_Stat w p =
     (case files w p of
        None \<Rightarrow> Some (PathError ENOENT)
      | Some s \<Rightarrow> if p \<in> unreadable w then Some (PathError EACCES) else None)"

definition os_ReadFile :: "world \<Rightarrow> string \<Rightarrow> error + string" where
  "os_ReadFile w p =
     (case files w p of
        None \<Rightarrow> Inl (PathError ENOENT)
      | Some s \<Rightarrow> if p \<in> unreadable w then Inl (PathError EACCES) else Inr s)"

definition os_WriteFile :: "string \<Rightarrow> string \<Rightarrow> world \<Rightarrow> error option \<times> world" where
  "os_WriteFile p data w =
     (if p \<in> unwritable w then (Some (PathError EACCES), w)
      else (None, w\<lparr>files := (files w)(p \<mapsto> data), history := history w @ [Wrote p data]\<rparr>))"

definition os_Getwd :: "world \<Rightarrow> error + string" where
  "os_Getwd w = (case cwd w of None \<Rightarrow> Inl GetwdError | Some d \<Rightarrow> Inr d)"

text \<open>\<open>exec.Command(argv...)\<close>, \<open>cmd.Dir = dir\<close>, \<open>cmd.Run()\<close>.\<close>

definition Run :: "string \<Rightarrow> string list \<Rightarrow> world \<Rightarrow> error option \<times> world" where
  "Run dir argv w =
     (let ok = exit_ok w (history w) dir argv
      in (if ok then None else Some ExecError, w\<lparr>history := history w @ [Ran dir argv ok]\<rparr>))"

section \<open>Libraries taken as parameters\<close>

text \<open>
  The YAML codec, \<open>path.Join\<close> and the matching engine of package regexp are not part
  of the repository; every function of the package takes them as the record \<open>L\<close>.
  A compiled \<open>Regexp\<close> is determined by the expression it was compiled from.
  \<open>regexp_matches re src\<close> is the list of the successive matches that a replace-all
  acts on, left to right; a match lists the byte spans of its groups, group 0 (the whole
  match) first, \<open>None\<close> for a group that took no part.
\<close>

datatype Regexp = Regexp string

type_synonym match = "(nat \<times> nat) option list"

record libs =
  yaml_Marshal :: "VrsConfig \<Rightarrow> string + string"
  yaml_Unmarshal :: "string \<Rightarrow> string + VrsConfig"
  path_Join :: "string \<Rightarrow> string \<Rightarrow> string"
  regexp_Compile :: "string \<Rightarrow> string + Regexp"
  regexp_matches :: "Regexp \<Rightarrow> string \<Rightarrow> match list"
  regexp_SubexpNames :: "Regexp \<Rightarrow> string list"

section \<open>Package regexp: replacement templates\<close>

text \<open>
  \<open>ReplaceAllString\<close> copies the source, putting in place of every match the expansion
  of the replacement template: \<open>$name\<close> and \<open>${name}\<close> stand for the text of a group,
  \<open>$$\<close> for a dollar sign, a dollar sign followed by no name stays. A name is the
  longest run of letters, digits and underscores (ASCII here; Go also takes non-ASCII
  letters and digits into a name).
\<close>

definition isNameChar :: "char \<Rightarrow> bool" where
  "isNameChar c =
     (let n = (of_char c :: nat)
      in (48 \<le> n \<and> n \<le> 57) \<or> (65 \<le> n \<and> n \<le> 90) \<or> (97 \<le> n \<and> n \<le> 122) \<or> n = 95)"

fun numLoop :: "int \<Rightarrow> string \<Rightarrow> int" where
  "numLoop num [] = num"
| "numLoop num (c # cs) =
     (if \<not> isDigit c \<or> 100000000 \<le> num then - 1 else numLoop (num * 10 + int (digitVal c)) cs)"

definition nameNum :: "string \<Rightarrow> int" where
  "nameNum name = (if hd name = CHR ''0'' \<and> 1 < length name then - 1 else numLoop 0 name)"

definition extractName :: "string \<Rightarrow> (string \<times> int \<times> string) option" where
  "extractName str =
     (if str = [] then None
      else let brace = (hd str = CHR ''{'');
               body = (if brace then tl str else str);
               name = takeWhile isNameChar body;
               rest = dropWhile isNameChar body
           in if name = [] then None
              else if brace \<and> (rest = [] \<or> hd rest \<noteq> CHR ''}'') then None
              else Some (name, nameNum name, if brace then tl rest else rest))"

definition slice :: "string \<Rightarrow> nat \<Rightarrow> nat \<Rightarrow> string" where
  "slice src lo hi = take (hi - lo) (drop lo src)"

definition groupText :: "string \<Rightarrow> match \<Rightarrow> nat \<Rightarrow> string option" where
  "groupText src m i =
     (if i < length m then (case m ! i of None \<Rightarrow> None | Some (lo, hi) \<Rightarrow> Some (slice src lo hi))
      else None)"

fun namedText :: "string \<Rightarrow> match \<Rightarrow> string \<Rightarrow> nat \<Rightarrow> string list \<Rightarrow> string" where
  "namedText src m name i [] = []"
| "namedText src m name i (namei # names) =
     (if name = namei \<and> groupText src m i \<noteq> None then the (groupText src m i)
      else namedText src m name (Suc i) names)"

function expand :: "string list \<Rightarrow> string \<Rightarrow> match \<Rightarrow> string \<Rightarrow> string" where
  "expand names src m [] = []"
| "expand names src m (c # template) =
     (if c \<noteq> CHR ''$'' then c # expand names src m template
      else if template \<noteq> [] \<and> hd template = CHR ''$'' then CHR ''$'' # expand names src m (tl template)
      else (case extractName template of
              None \<Rightarrow> CHR ''$'' # expand names src m template
            | Some (name, num, rest) \<Rightarrow>
                (if 0 \<le> num then (case groupText src m (nat num) of None \<Rightarrow> [] | Some t \<Rightarrow> t)
                 else namedText src m name 0 names) @ expand names src m rest))"
  by pat_completeness auto
termination
proof (relation "measure (\<lambda>(names, src, m, template). length template)", goal_cases)
  case (5 names src m c template x2 name y num rest)
  have "length (dropWhile isNameChar template) \<le> length template"
    by (rule length_dropWhile_le)
  moreover have "length (dropWhile isNameChar (tl template)) \<le> length template"
    by (rule le_trans [OF length_dropWhile_le]) simp
  ultimately have "length rest \<le> length template"
    using 5 by (auto simp: extractName_def Let_def split: if_splits)
  then show ?case by simp
qed auto

declare expand.simps(2) [simp del]

fun splice :: "string \<Rightarrow> nat \<Rightarrow> match list \<Rightarrow> (match \<Rightarrow> string) \<Rightarrow> string" where
  "splice src pos [] f = drop pos src"
| "splice src pos (m # ms) f =
     (case m of
        Some (lo, hi) # groups \<Rightarrow> slice src pos lo @ f m @ splice src hi ms f
      | _ \<Rightarrow> splice src pos ms f)"

definition ReplaceAllString :: "libs \<Rightarrow> Regexp \<Rightarrow> string \<Rightarrow> string \<Rightarrow> string" where
  "ReplaceAllString L re src repl =
     splice src 0 (regexp_matches L re src) (\<lambda>m. expand (regexp_SubexpNames L re) src m repl)"

section \<open>The package (vrs.go)\<close>

text \<open>
  A function of the source that returns \<open>error\<close> returns an \<open>error option\<close> here
  (\<open>None\<close> is nil) together with the world it leaves behind. \<open>andThen\<close> is the
  idiom \<^verbatim>\<open>if err != nil { return err }\<close> between two steps.
\<close>

definition andThen ::
  "error option \<times> world \<Rightarrow> (world \<Rightarrow> error option \<times> world) \<Rightarrow> error option \<times> world" where
  "andThen r f = (case r of (Some err, w) \<Rightarrow> (Some err, w) | (None, w) \<Rightarrow> f w)"

text \<open>Lines 39-59.\<close>

definition ParseVersioonConfig :: "libs \<Rightarrow> string \<Rightarrow> world \<Rightarrow> error + VrsConfig" where
  "ParseVersioonConfig L basePath w =
     (let versioonConfigPath = path_Join L basePath VrsConfigFileName
      in if (case os_Stat w versioonConfigPath of Some err \<Rightarrow> os_IsNotExist err | None \<Rightarrow> False)
         then Inl NoVersioonFileFound
         else (case os_ReadFile w versioonConfigPath of
                 Inl err \<Rightarrow> Inl err
               | Inr yml \<Rightarrow>
                   (case yaml_Unmarshal L yml of
                      Inl msg \<Rightarrow> Inl (YamlError msg)
                    | Inr config \<Rightarrow> Inr config)))"

text \<open>Lines 61-71.\<close>

definition Write :: "libs \<Rightarrow> VrsConfig \<Rightarrow> string \<Rightarrow> world \<Rightarrow> error option \<times> world" where
  "Write L config basePath w =
     (case yaml_Marshal L config of
        Inl msg \<Rightarrow> (Some (YamlError msg), w)
      | Inr yml \<Rightarrow> os_WriteFile (path_Join L basePath VrsConfigFileName) yml w)"

text \<open>Lines 73-120.\<close>

definition WriteAndCommit ::
  "libs \<Rightarrow> VrsConfig \<Rightarrow> string \<Rightarrow> bool \<Rightarrow> bool \<Rightarrow> string \<Rightarrow> world \<Rightarrow> error option \<times> world" where
  "WriteAndCommit L config baseDir commit push commitMessage w =
     andThen (Write L config baseDir w) (\<lambda>w.
       if commit then
         andThen (Run baseDir [''git'', ''add'', VrsConfigFileName] w) (\<lambda>w.
         andThen (Run baseDir [''git'', ''commit'', ''-m'', commitMessage] w) (\<lambda>w.
         andThen (Run baseDir [''git'', ''tag'', ''v'' @ Version config] w) (\<lambda>w.
           if push then
             andThen (Run baseDir [''git'', ''push''] w) (\<lambda>w.
               Run baseDir [''git'', ''push'', ''--tags''] w)
           else (None, w))))
       else (None, w))"

text \<open>Lines 128-138, 162-172 and 283-293.\<close>

definition NewDefaultInitOptions :: "world \<Rightarrow> error + InitOptions" where
  "NewDefaultInitOptions w =
     (case os_Getwd w of
        Inl err \<Rightarrow> Inl err
      | Inr wd \<Rightarrow> Inr \<lparr>Basedir = wd, GitCommit = True, GitPush = True\<rparr>)"

definition NewDefaultBumpOptions :: "world \<Rightarrow> error + BumpOptions" where
  "NewDefaultBumpOptions w =
     (case os_Getwd w of
        Inl err \<Rightarrow> Inl err
      | Inr wd \<Rightarrow> Inr \<lparr>Basedir = wd, GitCommit = True, GitPush = True, ActiveProfiles = []\<rparr>)"

definition NewDefaultReadCurrentOptions :: "world \<Rightarrow> error + ReadCurrentOptions" where
  "NewDefaultReadCurrentOptions w =
     (case os_Getwd w of
        Inl err \<Rightarrow> Inl err
      | Inr wd \<Rightarrow> Inr \<lparr>Basedir = wd, GitCommit = True, GitPush = True\<rparr>)"

text \<open>Lines 140-153.\<close>

definition Init :: "libs \<Rightarrow> InitOptions option \<Rightarrow> world \<Rightarrow> error option \<times> world" where
  "Init L options w =
     (case (case options of None \<Rightarrow> NewDefaultInitOptions w | Some opts \<Rightarrow> Inr opts) of
        Inl err \<Rightarrow> (Some err, w)
      | Inr opts \<Rightarrow>
          WriteAndCommit L \<lparr>Version = ''0.0.0'', Sync = None, Profiles = []\<rparr>
            (Basedir opts) (GitCommit opts) (GitPush opts) ''Initialized versioon file.'' w)"

text \<open>Lines 236-275.\<close>

definition bumpInFile ::
  "libs \<Rightarrow> string \<Rightarrow> bool \<Rightarrow> string \<Rightarrow> string \<Rightarrow> string \<Rightarrow> string \<Rightarrow> world
    \<Rightarrow> error option \<times> world" where
  "bumpInFile L baseDir gitCommit file oldVersion oldExpression newVersion w =
     (let filePath = path_Join L baseDir file
      in case os_ReadFile w filePath of
           Inl err \<Rightarrow> (Some err, w)
         | Inr originalBytes \<Rightarrow>
             (case (if oldVersion \<noteq> [] then Inr (ReplaceAll originalBytes oldVersion newVersion)
                    else (case regexp_Compile L oldExpression of
                            Inl msg \<Rightarrow> Inl (RegexpError msg)
                          | Inr r \<Rightarrow> Inr (ReplaceAllString L r originalBytes newVersion))) of
                Inl err \<Rightarrow> (Some err, w)
              | Inr bumpedFile \<Rightarrow>
                  andThen (os_WriteFile filePath bumpedFile w) (\<lambda>w.
                    if gitCommit then
                      andThen (Run baseDir [''git'', ''add'', file] w) (\<lambda>w.
                        Run baseDir [''git'', ''commit'', ''-m'', ''Bumped version.''] w)
                    else (None, w))))"

text \<open>
  The body of the two loops over sync files (lines 202-206 and 218-222), and the loops
  themselves (lines 201-210 and 217-226), which return at the first error.
\<close>

definition bumpSyncFile ::
  "libs \<Rightarrow> string \<Rightarrow> bool \<Rightarrow> string \<Rightarrow> string \<Rightarrow> SyncFile \<Rightarrow> world \<Rightarrow> error option \<times> world" where
  "bumpSyncFile L baseDir gitCommit oldVersion newVersion file w =
     (if Pattern file = [] then bumpInFile L baseDir gitCommit (SyncFile.Name file) oldVersion [] newVersion w
      else bumpInFile L baseDir gitCommit (SyncFile.Name file) [] (Pattern file) newVersion w)"

fun bumpSyncFiles ::
  "libs \<Rightarrow> string \<Rightarrow> bool \<Rightarrow> string \<Rightarrow> string \<Rightarrow> SyncFile list \<Rightarrow> world \<Rightarrow> error option \<times> world" where
  "bumpSyncFiles L baseDir gitCommit oldVersion newVersion [] w = (None, w)"
| "bumpSyncFiles L baseDir gitCommit oldVersion newVersion (file # rest) w =
     andThen (bumpSyncFile L baseDir gitCommit oldVersion newVersion file w)
       (bumpSyncFiles L baseDir gitCommit oldVersion newVersion rest)"

text \<open>
  The inner loop of lines 214-230 for one entry of \<open>config.Profiles\<close>: it looks for the
  first active profile with the name of the entry, syncs the files of the entry and
  breaks. Reading \<open>profile.Name\<close> of a nil entry panics.
\<close>

fun bumpProfile ::
  "libs \<Rightarrow> string \<Rightarrow> bool \<Rightarrow> string \<Rightarrow> string \<Rightarrow> Profile option \<Rightarrow> string list \<Rightarrow> world
    \<Rightarrow> error option go \<times> world" where
  "bumpProfile L baseDir gitCommit oldVersion newVersion profile [] w = (Return None, w)"
| "bumpProfile L baseDir gitCommit oldVersion newVersion profile (activeProfile # rest) w =
     (case profile of
        None \<Rightarrow> (Panic, w)
      | Some p \<Rightarrow>
          if activeProfile = Profile.Name p then
            (case Profile.Sync p of
               None \<Rightarrow> (Return None, w)
             | Some sync \<Rightarrow>
                 (case bumpSyncFiles L baseDir gitCommit oldVersion newVersion (Files sync) w of
                    (err, w') \<Rightarrow> (Return err, w')))
          else bumpProfile L baseDir gitCommit oldVersion newVersion profile rest w)"

text \<open>The outer loop of lines 213-231.\<close>

fun bumpProfiles ::
  "libs \<Rightarrow> string \<Rightarrow> bool \<Rightarrow> string \<Rightarrow> string \<Rightarrow> string list \<Rightarrow> Profile option list \<Rightarrow> world
    \<Rightarrow> error option go \<times> world" where
  "bumpProfiles L baseDir gitCommit oldVersion newVersion active [] w = (Return None, w)"
| "bumpProfiles L baseDir gitCommit oldVersion newVersion active (profile # rest) w =
     (case bumpProfile L baseDir gitCommit oldVersion newVersion profile active w of
        (Return None, w') \<Rightarrow> bumpProfiles L baseDir gitCommit oldVersion newVersion active rest w'
      | (r, w') \<Rightarrow> (r, w'))"

text \<open>Lines 200-233: the global sync files, then the profiles.\<close>

definition bumpSync ::
  "libs \<Rightarrow> string \<Rightarrow> bool \<Rightarrow> string list \<Rightarrow> string \<Rightarrow> VrsConfig \<Rightarrow> world \<Rightarrow> error option go \<times> world" where
  "bumpSync L baseDir gitCommit active oldVersion config w =
     (case (case VrsConfig.Sync config of
              None \<Rightarrow> (None, w)
            | Some sync \<Rightarrow> bumpSyncFiles L baseDir gitCommit oldVersion (Version config) (Files sync) w) of
        (Some err, w') \<Rightarrow> (Return (Some err), w')
      | (None, w') \<Rightarrow>
          bumpProfiles L baseDir gitCommit oldVersion (Version config) active (Profiles config) w')"

text \<open>
  Lines 174-234. Indexing \<open>versionParts\<close> beyond its length panics: at line 190 when the
  version has no dot, at line 194 when it has one dot only.
\<close>

definition Bump :: "libs \<Rightarrow> BumpOptions option \<Rightarrow> world \<Rightarrow> error option go \<times> world" where
  "Bump L options w =
     (case (case options of None \<Rightarrow> NewDefaultBumpOptions w | Some opts \<Rightarrow> Inr opts) of
        Inl err \<Rightarrow> (Return (Some err), w)
      | Inr opts \<Rightarrow>
          (case ParseVersioonConfig L (Basedir opts) w of
             Inl err \<Rightarrow> (Return (Some err), w)
           | Inr config \<Rightarrow>
               let oldVersion = Version config;
                   versionParts = Split oldVersion ''.''
               in if length versionParts \<le> 1 then (Panic, w)
                  else (case Atoi (versionParts ! 1) of
                          Inl err \<Rightarrow> (Return (Some err), w)
                        | Inr minorVersion \<Rightarrow>
                            if length versionParts \<le> 2 then (Panic, w)
                            else
                              let config' = config\<lparr>Version :=
                                    Sprintf_version (versionParts ! 0) (wrapInt (minorVersion + 1))
                                      (versionParts ! 2)\<rparr>
                              in (case WriteAndCommit L config' (Basedir opts) (GitCommit opts)
                                        (GitPush opts) ''Version bump.'' w of
                                    (Some err, w') \<Rightarrow> (Return (Some err), w')
                                  | (None, w') \<Rightarrow>
                                      bumpSync L (Basedir opts) (GitCommit opts) (ActiveProfiles opts)
                                        oldVersion config' w'))))"

text \<open>Lines 295-309.\<close>

definition ReadCurrentVersion :: "libs \<Rightarrow> ReadCurrentOptions option \<Rightarrow> world \<Rightarrow> error + string" where
  "ReadCurrentVersion L options w =
     (case (case options of None \<Rightarrow> NewDefaultReadCurrentOptions w | Some opts \<Rightarrow> Inr opts) of
        Inl err \<Rightarrow> Inl err
      | Inr opts \<Rightarrow>
          (case ParseVersioonConfig L (Basedir opts) w of
             Inl err \<Rightarrow> Inl err
           | Inr config \<Rightarrow> Inr (Version config)))"

section \<open>Stand-ins for the libraries at concrete inputs\<close>

text \<open>
  To evaluate the package on concrete inputs the library parameters are instantiated:
  the YAML codec by a table of documents and the configurations they denote,
  \<open>path.Join\<close> by concatenation with a slash (which it is on clean path elements), and
  the regexp engine by one that agrees with Go on non-empty expressions without
  metacharacters, which match their own text and have no groups but group 0, and on the
  expression \<open>(\<close>, which does not compile.
\<close>

definition fake_Marshal :: "(string \<times> VrsConfig) list \<Rightarrow> VrsConfig \<Rightarrow> string + string" where
  "fake_Marshal docs config =
     (case find (\<lambda>(yml, c). c = config) docs of
        None \<Rightarrow> Inl ''cannot marshal''
      | Some (yml, c) \<Rightarrow> Inr yml)"

definition fake_Unmarshal :: "(string \<times> VrsConfig) list \<Rightarrow> string \<Rightarrow> string + VrsConfig" where
  "fake_Unmarshal docs yml =
     (case map_of docs yml of None \<Rightarrow> Inl ''cannot unmarshal'' | Some c \<Rightarrow> Inr c)"

definition fake_Compile :: "string \<Rightarrow> string + Regexp" where
  "fake_Compile expr = (if expr = ''('' then Inl ''missing closing )'' else Inr (Regexp expr))"

fun literal_matches :: "string \<Rightarrow> nat \<Rightarrow> string \<Rightarrow> match list" where
  "literal_matches expr pos [] = []"
| "literal_matches expr pos (c # cs) =
     (if prefix expr (c # cs)
      then [Some (pos, pos + length expr)]
             # literal_matches expr (pos + length expr) (drop (length expr - 1) cs)
      else literal_matches expr (Suc pos) cs)"

definition fake_libs :: "(string \<times> VrsConfig) list \<Rightarrow> libs" where
  "fake_libs docs =
     \<lparr>yaml_Marshal = fake_Marshal docs,
      yaml_Unmarshal = fake_Unmarshal docs,
      path_Join = (\<lambda>dir file. dir @ ''/'' @ file),
      regexp_Compile = fake_Compile,
      regexp_matches = (\<lambda>re src. case re of Regexp expr \<Rightarrow> literal_matches expr 0 src),
      regexp_SubexpNames = (\<lambda>re. [[]])\<rparr>"

text \<open>
  A world with the given files, where every file can be read and written and every
  command succeeds.
\<close>

definition fair_world :: "(string \<times> string) list \<Rightarrow> world" where
  "fair_world fs =
     \<lparr>files = map_of fs, unreadable = {}, unwritable = {}, cwd = Some ''/repo'',
      exit_ok = (\<lambda>h dir argv. True), history = []\<rparr>"

text \<open>Concrete configurations, documents, worlds and options for evaluation.\<close>

definition example_yaml :: "string \<Rightarrow> string" where
  "example_yaml v = ''version: '' @ v"

definition plain_config :: "string \<Rightarrow> VrsConfig" where
  "plain_config v = \<lparr>Version = v, Sync = None, Profiles = []\<rparr>"

definition plain_docs :: "string list \<Rightarrow> (string \<times> VrsConfig) list" where
  "plain_docs vs = map (\<lambda>v. (example_yaml v, plain_config v)) vs"

definition plain_world :: "string \<Rightarrow> world" where
  "plain_world v = fair_world [(''/repo/vrs.yml'', example_yaml v)]"

definition example_options :: BumpOptions where
  "example_options = \<lparr>Basedir = ''/repo'', GitCommit = True, GitPush = False, ActiveProfiles = [''docs'', ''docs'']\<rparr>"

definition example_config :: "string \<Rightarrow> VrsConfig" where
  "example_config v =
     \<lparr>Version = v,
      Sync = Some \<lparr>Files = [\<lparr>SyncFile.Name = ''README.md'', Pattern = []\<rparr>,
                            \<lparr>SyncFile.Name = ''version.go'', Pattern = ''VERSION''\<rparr>]\<rparr>,
      Profiles =
        [Some \<lparr>Profile.Name = ''docs'',
               Sync = Some \<lparr>Files = [\<lparr>SyncFile.Name = ''guide.txt'', Pattern = []\<rparr>]\<rparr>\<rparr>,
         Some \<lparr>Profile.Name = ''web'',
               Sync = Some \<lparr>Files = [\<lparr>SyncFile.Name = ''index.html'', Pattern = []\<rparr>]\<rparr>\<rparr>,
         Some \<lparr>Profile.Name = ''docs'',
               Sync = Some \<lparr>Files = [\<lparr>SyncFile.Name = ''faq.txt'', Pattern = []\<rparr>]\<rparr>\<rparr>]\<rparr>"

definition example_docs :: "string list \<Rightarrow> (string \<times> VrsConfig) list" where
  "example_docs vs = map (\<lambda>v. (example_yaml v, example_config v)) vs"

definition example_world :: "string \<Rightarrow> world" where
  "example_world v =
     fair_world
       [(''/repo/vrs.yml'', example_yaml v),
        (''/repo/README.md'', ''get '' @ v @ '' or v'' @ v),
        (''/repo/version.go'', ''const V = VERSION''),
        (''/repo/guide.txt'', ''guide to '' @ v),
        (''/repo/index.html'', ''site of '' @ v),
        (''/repo/faq.txt'', ''no version here'')]"

section \<open>Notions the claims are stated with\<close>

text \<open>
  The sync targets of a bump in the words of the specification: the files of the global
  sync, then, for each profile of the configuration in order whose name is among the
  active profiles, the files of the sync of that profile.
\<close>

definition sync_files :: "Sync option \<Rightarrow> SyncFile list" where
  "sync_files sync = (case sync of None \<Rightarrow> [] | Some s \<Rightarrow> Files s)"

definition profile_files :: "string list \<Rightarrow> Profile option \<Rightarrow> SyncFile list" where
  "profile_files active profile =
     (case profile of
        None \<Rightarrow> []
      | Some p \<Rightarrow> if Profile.Name p \<in> set active then sync_files (Profile.Sync p) else [])"

definition sync_targets :: "VrsConfig \<Rightarrow> string list \<Rightarrow> SyncFile list" where
  "sync_targets config active =
     sync_files (VrsConfig.Sync config) @ concat (map (profile_files active) (Profiles config))"

text \<open>
  What an event of the history did, without the content written or the exit status, and
  the steps of a bump with commit mode on: the configuration is written, staged,
  committed and tagged (and pushed in push mode); then each sync target in turn is
  written, staged and committed.
\<close>

datatype step = WriteStep string | RunStep string "string list"

fun shape :: "event \<Rightarrow> step" where
  "shape (Wrote p content) = WriteStep p"
| "shape (Ran dir argv ok) = RunStep dir argv"

fun succeeded :: "event \<Rightarrow> bool" where
  "succeeded (Wrote p content) = True"
| "succeeded (Ran dir argv ok) = ok"

definition config_steps :: "libs \<Rightarrow> string \<Rightarrow> bool \<Rightarrow> string \<Rightarrow> string \<Rightarrow> step list" where
  "config_steps L baseDir push message version =
     [WriteStep (path_Join L baseDir VrsConfigFileName),
      RunStep baseDir [''git'', ''add'', VrsConfigFileName],
      RunStep baseDir [''git'', ''commit'', ''-m'', message],
      RunStep baseDir [''git'', ''tag'', ''v'' @ version]]
     @ (if push then [RunStep baseDir [''git'', ''push''],
                      RunStep baseDir [''git'', ''push'', ''--tags'']]
        else [])"

definition file_steps :: "libs \<Rightarrow> string \<Rightarrow> string \<Rightarrow> step list" where
  "file_steps L baseDir file =
     [WriteStep (path_Join L baseDir file),
      RunStep baseDir [''git'', ''add'', file],
      RunStep baseDir [''git'', ''commit'', ''-m'', ''Bumped version.'']]"

definition files_steps :: "libs \<Rightarrow> string \<Rightarrow> SyncFile list \<Rightarrow> step list" where
  "files_steps L baseDir targets = concat (map (\<lambda>f. file_steps L baseDir (SyncFile.Name f)) targets)"

text \<open>
  \<open>follows plan w finished w'\<close>: the world \<open>w'\<close> comes from \<open>w\<close> by events that carry
  out the plan step by step from its start; every event but the last succeeded; and a
  run that finished carried out the whole plan, with every step succeeding.
\<close>

definition new_events :: "world \<Rightarrow> world \<Rightarrow> event list" where
  "new_events w w' = drop (length (history w)) (history w')"

definition follows :: "step list \<Rightarrow> world \<Rightarrow> bool \<Rightarrow> world \<Rightarrow> bool" where
  "follows plan w finished w' =
     (history w' = history w @ new_events w w'
      \<and> prefix (map shape (new_events w w')) plan
      \<and> list_all succeeded (butlast (new_events w w'))
      \<and> (finished \<longrightarrow> map shape (new_events w w') = plan \<and> list_all succeeded (new_events w w')))"

section \<open>Properties of the string and number functions\<close>

lemma prefix_drop: "sep \<noteq> [] \<Longrightarrow> prefix sep (c # cs) \<Longrightarrow> c # cs = sep @ drop (length sep - 1) cs"
  by (cases sep) (auto simp: prefix_def)

lemma Join_Cons: "Join (x # xs) sep = (if xs = [] then x else x @ sep @ Join xs sep)"
  by (cases xs) auto

lemma split_from_not_Nil: "split_from sep acc s \<noteq> []"
  by (induction sep acc s rule: split_from.induct) auto

lemma Join_split_from: "sep \<noteq> [] \<Longrightarrow> Join (split_from sep acc s) sep = acc @ s"
proof (induction sep acc s rule: split_from.induct)
  case (1 sep acc)
  then show ?case by simp
next
  case (2 sep acc c cs)
  show ?case
  proof (cases "prefix sep (c # cs)")
    case True
    let ?rest = "drop (length sep - 1) cs"
    have "Join (split_from sep acc (c # cs)) sep = acc @ sep @ Join (split_from sep [] ?rest) sep"
      using True by (simp add: Join_Cons split_from_not_Nil)
    also have "\<dots> = acc @ sep @ ?rest"
      using 2 True by simp
    also have "\<dots> = acc @ c # cs"
      using prefix_drop [OF \<open>sep \<noteq> []\<close> True] by simp
    finally show ?thesis .
  next
    case False
    with 2 show ?thesis by simp
  qed
qed

lemma Join_split_from_new:
  "old \<noteq> [] \<Longrightarrow> Join (split_from old acc s) new = acc @ replace_from old new s"
proof (induction old acc s rule: split_from.induct)
  case (1 sep acc)
  then show ?case by simp
next
  case (2 sep acc c cs)
  then show ?case
    by (cases "prefix sep (c # cs)") (simp_all add: Join_Cons split_from_not_Nil)
qed

text \<open>
  The pieces of a split hold no occurrence of the separator. The invariant of the scan:
  no occurrence of the separator starts inside the piece collected so far.
\<close>

lemma sublist_starts_inside:
  assumes "old \<noteq> []" and "sublist old acc"
  shows "\<exists>i < length acc. prefix old (drop i (acc @ s))"
proof -
  from assms obtain ps ss where acc: "acc = ps @ old @ ss"
    by (auto simp: sublist_def)
  have "length ps < length acc"
    using assms(1) acc by (cases old) auto
  moreover have "prefix old (drop (length ps) (acc @ s))"
    by (simp add: acc)
  ultimately show ?thesis by blast
qed

lemma split_from_pieces:
  "old \<noteq> [] \<Longrightarrow> \<not> (\<exists>i < length acc. prefix old (drop i (acc @ s)))
     \<Longrightarrow> p \<in> set (split_from old acc s) \<Longrightarrow> \<not> sublist old p"
proof (induction old acc s rule: split_from.induct)
  case (1 sep acc)
  then show ?case
    using sublist_starts_inside [of sep acc "[]"] by auto
next
  case (2 sep acc c cs)
  show ?case
  proof (cases "prefix sep (c # cs)")
    case True
    with 2 show ?thesis
      using sublist_starts_inside [of sep acc "c # cs"] by auto
  next
    case False
    have "\<not> (\<exists>i < length (acc @ [c]). prefix sep (drop i ((acc @ [c]) @ cs)))"
    proof
      assume "\<exists>i < length (acc @ [c]). prefix sep (drop i ((acc @ [c]) @ cs))"
      then obtain i where i: "i < Suc (length acc)" "prefix sep (drop i (acc @ c # cs))"
        by auto
      show False
      proof (cases "i < length acc")
        case True
        with i(2) "2.prems"(2) show False by blast
      next
        case False
        with i(1) have "i = length acc" by simp
        with i(2) \<open>\<not> prefix sep (c # cs)\<close> show False by simp
      qed
    qed
    with False 2 show ?thesis by auto
  qed
qed

lemma replace_from_absent: "\<not> sublist old s \<Longrightarrow> replace_from old new s = s"
  by (induction old new s rule: replace_from.induct) (auto simp: sublist_Cons_right)

lemma ReplaceAll_Join_Split: "old \<noteq> [] \<Longrightarrow> ReplaceAll s old new = Join (Split s old) new"
  by (simp add: ReplaceAll_def Split_def Join_split_from_new)

lemma Join_Split: "sep \<noteq> [] \<Longrightarrow> Join (Split s sep) sep = s"
  by (simp add: Split_def Join_split_from)

lemma Split_pieces: "sep \<noteq> [] \<Longrightarrow> p \<in> set (Split s sep) \<Longrightarrow> \<not> sublist sep p"
  using split_from_pieces [of sep "[]" s p] by (simp add: Split_def)

lemma sublist_single: "sublist [d] p \<longleftrightarrow> d \<in> set p"
  by (induction p) (auto simp: sublist_Cons_right)

lemma split_from_skip: "d \<notin> set a \<Longrightarrow> split_from [d] acc (a @ s) = split_from [d] (acc @ a) s"
  by (induction a arbitrary: acc) auto

lemma Split_three:
  "d \<notin> set x \<Longrightarrow> d \<notin> set y \<Longrightarrow> d \<notin> set z \<Longrightarrow> Split (x @ [d] @ y @ [d] @ z) [d] = [x, y, z]"
  using split_from_skip [of d x "[]" "[d] @ y @ [d] @ z"] split_from_skip [of d y "[]" "[d] @ z"]
    split_from_skip [of d z "[]" "[]"]
  by (simp add: Split_def)

lemma Atoi_error: "Atoi s = Inl err \<Longrightarrow> err = NumError"
  by (auto simp: Atoi_def Let_def split: if_splits)

lemma Atoi_range: "Atoi s = Inr n \<Longrightarrow> minInt \<le> n \<and> n \<le> maxInt"
  by (auto simp: Atoi_def Let_def split: if_splits)

lemma digitChar_props:
  "d < 10 \<Longrightarrow> isDigit (digitChar d) \<and> digitVal (digitChar d) = d \<and> digitChar d \<noteq> CHR ''-''
     \<and> digitChar d \<noteq> CHR ''+'' \<and> CHR ''.'' \<noteq> digitChar d"
proof -
  assume "d < 10"
  then have "d = 0 \<or> d = 1 \<or> d = 2 \<or> d = 3 \<or> d = 4 \<or> d = 5 \<or> d = 6 \<or> d = 7 \<or> d = 8 \<or> d = 9"
    by presburger
  then show ?thesis
    by (elim disjE) (simp_all add: digitChar_def isDigit_def digitVal_def)
qed

lemma decimal_snoc: "decimal n (ds @ [c]) = decimal n ds * 10 + digitVal c"
  by (induction ds arbitrary: n) auto

lemma natDigits_props:
  "natDigits n \<noteq> [] \<and> list_all isDigit (natDigits n) \<and> decimal 0 (natDigits n) = n
     \<and> CHR ''.'' \<notin> set (natDigits n)"
proof (induction n rule: natDigits.induct)
  case (1 n)
  show ?case
  proof (cases "n < 10")
    case True
    then show ?thesis
      using digitChar_props [of n] by (simp add: natDigits.simps [of n])
  next
    case False
    with 1 digitChar_props [of "n mod 10"] show ?thesis
      by (simp add: natDigits.simps [of n] decimal_snoc)
  qed
qed

lemma natDigits_hd: "isDigit (hd (natDigits n))"
  using natDigits_props [of n] by (cases "natDigits n") auto

text \<open>The \<open>%d\<close> verb prints the decimal numeral that \<open>strconv.Atoi\<close> reads back.\<close>

lemma Atoi_formatInt: "minInt \<le> i \<Longrightarrow> i \<le> maxInt \<Longrightarrow> Atoi (formatInt i) = Inr i"
  using natDigits_props [of "nat i"] natDigits_props [of "nat (- i)"] natDigits_hd [of "nat i"]
  by (auto simp: Atoi_def formatInt_def Let_def isDigit_def)

lemma formatInt_nodot: "CHR ''.'' \<notin> set (formatInt i)"
  using natDigits_props [of "nat i"] natDigits_props [of "nat (- i)"]
  by (simp add: formatInt_def)

lemma wrapInt_id: "minInt \<le> i \<Longrightarrow> i \<le> maxInt \<Longrightarrow> wrapInt i = i"
  by (simp add: wrapInt_def minInt_def maxInt_def)

lemmas eval_strings =
  Split_def Atoi_def isDigit_def digitVal_def minInt_def maxInt_def Sprintf_version_def
  formatInt_def natDigits.simps digitChar_def wrapInt_def Let_def

lemmas eval_world =
  fake_libs_def fair_world_def fake_Marshal_def fake_Unmarshal_def fake_Compile_def
  os_Stat_def os_ReadFile_def os_WriteFile_def os_Getwd_def os_IsNotExist_def Run_def
  VrsConfigFileName_def andThen_def

lemmas eval_examples =
  example_yaml_def plain_config_def plain_docs_def plain_world_def example_options_def
  example_config_def example_docs_def example_world_def

section \<open>The version computed by a bump\<close>

text \<open>
  C6. A configuration whose version has a second dot-separated part that
  \<open>strconv.Atoi\<close> does not accept makes \<open>Bump\<close> return the error of the conversion
  and leave the world as it was: no file is written and no command is run.
\<close>

theorem Bump_malformed_minor_untouched:
  assumes "(case options of None \<Rightarrow> NewDefaultBumpOptions w | Some given \<Rightarrow> Inr given) = Inr opts"
    and "ParseVersioonConfig L (Basedir opts) w = Inr config"
    and "Split (Version config) ''.'' = x # y # rest"
    and "\<forall>n. Atoi y \<noteq> Inr n"
  shows "Bump L options w = (Return (Some NumError), w)"
proof -
  from assms(4) obtain err where err: "Atoi y = Inl err"
    by (cases "Atoi y") auto
  then have "err = NumError"
    by (rule Atoi_error)
  with err assms(1-3) show ?thesis
    by (simp add: Bump_def)
qed

theorem Bump_malformed_minor_untouched_witness:
  "ParseVersioonConfig (fake_libs (plain_docs [''1.x.0''])) ''/repo'' (plain_world ''1.x.0'')
      = Inr (plain_config ''1.x.0'')
   \<and> Split ''1.x.0'' ''.'' = [''1'', ''x'', ''0'']
   \<and> (\<forall>n. Atoi ''x'' \<noteq> Inr n)
   \<and> Bump (fake_libs (plain_docs [''1.x.0''])) (Some example_options) (plain_world ''1.x.0'')
      = (Return (Some NumError), plain_world ''1.x.0'')"
proof -
  have parse: "ParseVersioonConfig (fake_libs (plain_docs [''1.x.0''])) (Basedir example_options)
      (plain_world ''1.x.0'') = Inr (plain_config ''1.x.0'')"
    by (simp add: ParseVersioonConfig_def eval_world eval_examples)
  have parts: "Split (Version (plain_config ''1.x.0'')) ''.'' = ''1'' # ''x'' # [''0'']"
    by (simp add: plain_config_def Split_def)
  have minor: "\<forall>n. Atoi ''x'' \<noteq> Inr n"
    by (simp add: Atoi_def isDigit_def)
  have "(case Some example_options of None \<Rightarrow> NewDefaultBumpOptions (plain_world ''1.x.0'')
         | Some given \<Rightarrow> Inr given) = Inr example_options"
    by simp
  from Bump_malformed_minor_untouched [OF this parse parts minor] parse parts minor
  show ?thesis
    by (simp add: example_options_def plain_config_def)
qed

text \<open>
  C3. A version without a dot splits into a single part, and line 190 reads the
  second one: \<open>Bump\<close> panics instead of returning an error. (A version with exactly
  one dot and an integer after it panics at line 194.)
\<close>

theorem Bump_no_dot_panics:
  "Bump (fake_libs (plain_docs [''1''])) (Some example_options) (plain_world ''1'')
     = (Panic, plain_world ''1'')"
  by (simp add: Bump_def ParseVersioonConfig_def eval_world eval_examples Split_def)

text \<open>
  C1. For a version \<open>X.Y.Z\<close> of three parts whose second part parses as an integer
  \<open>n\<close> below the largest \<open>int\<close>, \<open>Bump\<close> persists, tags and syncs the configuration
  with the version \<open>X.(n+1).Z\<close>: the first and the third part are the strings they
  were, and the middle part is the decimal numeral of \<open>n + 1\<close>.
\<close>

theorem Bump_increments_minor:
  assumes "(case options of None \<Rightarrow> NewDefaultBumpOptions w | Some given \<Rightarrow> Inr given) = Inr opts"
    and "ParseVersioonConfig L (Basedir opts) w = Inr config"
    and "Split (Version config) ''.'' = [x, y, z]"
    and "Atoi y = Inr n"
    and "n < maxInt"
  shows "Bump L options w =
           (case WriteAndCommit L (config\<lparr>Version := Sprintf_version x (n + 1) z\<rparr>)
                   (Basedir opts) (GitCommit opts) (GitPush opts) ''Version bump.'' w of
              (Some err, w') \<Rightarrow> (Return (Some err), w')
            | (None, w') \<Rightarrow>
                bumpSync L (Basedir opts) (GitCommit opts) (ActiveProfiles opts) (Version config)
                  (config\<lparr>Version := Sprintf_version x (n + 1) z\<rparr>) w')
         \<and> Sprintf_version x (n + 1) z = x @ ''.'' @ formatInt (n + 1) @ ''.'' @ z
         \<and> Split (Sprintf_version x (n + 1) z) ''.'' = [x, formatInt (n + 1), z]
         \<and> Atoi (formatInt (n + 1)) = Inr (n + 1)"
proof -
  from assms(4,5) have range: "minInt \<le> n + 1" "n + 1 \<le> maxInt"
    using Atoi_range [of y n] by auto
  then have wrap: "wrapInt (n + 1) = n + 1"
    by (rule wrapInt_id)
  have "x \<in> set (Split (Version config) ''.'')" "z \<in> set (Split (Version config) ''.'')"
    by (simp_all add: assms(3))
  then have nodot: "CHR ''.'' \<notin> set x" "CHR ''.'' \<notin> set z"
    using Split_pieces [of "''.''" _ "Version config"] by (auto simp: sublist_single)
  have "Split (x @ [CHR ''.''] @ formatInt (n + 1) @ [CHR ''.''] @ z) [CHR ''.'']
          = [x, formatInt (n + 1), z]"
    using nodot(1) formatInt_nodot nodot(2) by (rule Split_three)
  then have "Split (Sprintf_version x (n + 1) z) ''.'' = [x, formatInt (n + 1), z]"
    by (simp add: Sprintf_version_def)
  moreover have "Atoi (formatInt (n + 1)) = Inr (n + 1)"
    using range by (rule Atoi_formatInt)
  moreover have "Bump L options w =
           (case WriteAndCommit L (config\<lparr>Version := Sprintf_version x (n + 1) z\<rparr>)
                   (Basedir opts) (GitCommit opts) (GitPush opts) ''Version bump.'' w of
              (Some err, w') \<Rightarrow> (Return (Some err), w')
            | (None, w') \<Rightarrow>
                bumpSync L (Basedir opts) (GitCommit opts) (ActiveProfiles opts) (Version config)
                  (config\<lparr>Version := Sprintf_version x (n + 1) z\<rparr>) w')"
    using assms(1-4) wrap by (simp add: Bump_def Let_def)
  ultimately show ?thesis
    by (simp add: Sprintf_version_def)
qed

theorem Bump_increments_minor_witness:
  "ParseVersioonConfig (fake_libs (plain_docs [''2.9.beta'', ''2.10.beta''])) ''/repo''
      (plain_world ''2.9.beta'') = Inr (plain_config ''2.9.beta'')
   \<and> Split ''2.9.beta'' ''.'' = [''2'', ''9'', ''beta'']
   \<and> Atoi ''9'' = Inr 9
   \<and> (9 :: int) < maxInt
   \<and> Sprintf_version ''2'' (9 + 1) ''beta'' = ''2.10.beta''
   \<and> history (snd (Bump (fake_libs (plain_docs [''2.9.beta'', ''2.10.beta'']))
        (Some example_options) (plain_world ''2.9.beta''))) =
       [Wrote ''/repo/vrs.yml'' ''version: 2.10.beta'',
        Ran ''/repo'' [''git'', ''add'', ''vrs.yml''] True,
        Ran ''/repo'' [''git'', ''commit'', ''-m'', ''Version bump.''] True,
        Ran ''/repo'' [''git'', ''tag'', ''v2.10.beta''] True]"
proof -
  let ?L = "fake_libs (plain_docs [''2.9.beta'', ''2.10.beta''])"
  have opts: "(case Some example_options of None \<Rightarrow> NewDefaultBumpOptions (plain_world ''2.9.beta'')
         | Some given \<Rightarrow> Inr given) = Inr example_options"
    by simp
  have parse: "ParseVersioonConfig ?L (Basedir example_options) (plain_world ''2.9.beta'')
      = Inr (plain_config ''2.9.beta'')"
    by (simp add: ParseVersioonConfig_def eval_world eval_examples)
  have parts: "Split (Version (plain_config ''2.9.beta'')) ''.'' = [''2'', ''9'', ''beta'']"
    by (simp add: plain_config_def Split_def)
  have minor: "Atoi ''9'' = Inr 9"
    by (simp add: eval_strings)
  have bound: "(9 :: int) < maxInt"
    by (simp add: maxInt_def)
  have new: "Sprintf_version ''2'' (9 + 1) ''beta'' = ''2.10.beta''"
    by (simp add: eval_strings)
  from Bump_increments_minor [OF opts parse parts minor bound] new
  have "history (snd (Bump ?L (Some example_options) (plain_world ''2.9.beta''))) =
       [Wrote ''/repo/vrs.yml'' ''version: 2.10.beta'',
        Ran ''/repo'' [''git'', ''add'', ''vrs.yml''] True,
        Ran ''/repo'' [''git'', ''commit'', ''-m'', ''Version bump.''] True,
        Ran ''/repo'' [''git'', ''tag'', ''v2.10.beta''] True]"
    by (simp add: WriteAndCommit_def Write_def bumpSync_def eval_world eval_examples)
  with parse parts minor bound new show ?thesis
    by (simp add: example_options_def plain_config_def)
qed

text \<open>
  C1 as stated, without the bound on the minor version, fails at the largest \<open>int\<close>:
  the increment of line 194 wraps around and the version tagged is negative.
\<close>

theorem Bump_minor_overflow:
  "ParseVersioonConfig
      (fake_libs (plain_docs [''1.9223372036854775807.0'', ''1.-9223372036854775808.0'']))
      ''/repo'' (plain_world ''1.9223372036854775807.0'')
      = Inr (plain_config ''1.9223372036854775807.0'')
   \<and> Split ''1.9223372036854775807.0'' ''.'' = [''1'', ''9223372036854775807'', ''0'']
   \<and> Atoi ''9223372036854775807'' = Inr 9223372036854775807
   \<and> ''1'' @ ''.'' @ formatInt (9223372036854775807 + 1) @ ''.'' @ ''0'' = ''1.9223372036854775808.0''
   \<and> history (snd (Bump
        (fake_libs (plain_docs [''1.9223372036854775807.0'', ''1.-9223372036854775808.0'']))
        (Some example_options) (plain_world ''1.9223372036854775807.0''))) =
       [Wrote ''/repo/vrs.yml'' ''version: 1.-9223372036854775808.0'',
        Ran ''/repo'' [''git'', ''add'', ''vrs.yml''] True,
        Ran ''/repo'' [''git'', ''commit'', ''-m'', ''Version bump.''] True,
        Ran ''/repo'' [''git'', ''tag'', ''v1.-9223372036854775808.0''] True]"
  by (simp add: Bump_def ParseVersioonConfig_def WriteAndCommit_def Write_def bumpSync_def
      eval_world eval_examples eval_strings)

section \<open>Loading the configuration\<close>


section \<open>Rewriting one sync target\<close>

text \<open>
  C10. In pattern mode, when the pattern does not compile, \<open>bumpInFile\<close> returns the
  error of \<open>regexp.Compile\<close> once the file has been read (a file that cannot be read
  gives the read error instead), and the world is as before: nothing is written and no
  command is run.
\<close>

theorem bumpInFile_invalid_pattern:
  assumes "Pattern f \<noteq> []"
    and "regexp_Compile L (Pattern f) = Inl msg"
  shows "bumpSyncFile L baseDir gitCommit oldVersion newVersion f w =
           (case os_ReadFile w (path_Join L baseDir (SyncFile.Name f)) of
              Inl err \<Rightarrow> (Some err, w)
            | Inr originalBytes \<Rightarrow> (Some (RegexpError msg), w))
         \<and> bumpInFile L baseDir gitCommit (SyncFile.Name f) [] (Pattern f) newVersion w =
           (case os_ReadFile w (path_Join L baseDir (SyncFile.Name f)) of
              Inl err \<Rightarrow> (Some err, w)
            | Inr originalBytes \<Rightarrow> (Some (RegexpError msg), w))"
  using assms by (simp add: bumpInFile_def bumpSyncFile_def Let_def split: sum.splits)

theorem bumpInFile_invalid_pattern_witness:
  "Pattern \<lparr>SyncFile.Name = ''README.md'', Pattern = ''(''\<rparr> \<noteq> []
   \<and> regexp_Compile (fake_libs []) ''('' = Inl ''missing closing )''
   \<and> os_ReadFile (example_world ''1.4.0'') ''/repo/README.md'' = Inr ''get 1.4.0 or v1.4.0''
   \<and> bumpSyncFile (fake_libs []) ''/repo'' True ''1.4.0'' ''1.5.0''
        \<lparr>SyncFile.Name = ''README.md'', Pattern = ''(''\<rparr> (example_world ''1.4.0'')
      = (Some (RegexpError ''missing closing )''), example_world ''1.4.0'')"
proof -
  let ?f = "\<lparr>SyncFile.Name = ''README.md'', Pattern = ''(''\<rparr>"
  have pattern: "Pattern ?f \<noteq> []"
    by simp
  have compile: "regexp_Compile (fake_libs []) (Pattern ?f) = Inl ''missing closing )''"
    by (simp add: fake_libs_def fake_Compile_def)
  have read: "os_ReadFile (example_world ''1.4.0'') ''/repo/README.md'' = Inr ''get 1.4.0 or v1.4.0''"
    by (simp add: os_ReadFile_def example_world_def fair_world_def)
  have join: "path_Join (fake_libs []) ''/repo'' (SyncFile.Name ?f) = ''/repo/README.md''"
    by (simp add: fake_libs_def)
  from bumpInFile_invalid_pattern [OF pattern compile, of "''/repo''" True "''1.4.0''" "''1.5.0''"
      "example_world ''1.4.0''"]
  have "bumpSyncFile (fake_libs []) ''/repo'' True ''1.4.0'' ''1.5.0'' ?f (example_world ''1.4.0'')
      = (Some (RegexpError ''missing closing )''), example_world ''1.4.0'')"
    by (simp only: join read sum.case)
  with pattern compile read show ?thesis
    by simp
qed

section \<open>The order of writes and commands\<close>

text \<open>
  Each function of the package that writes or runs commands follows a plan; sequencing
  with \<open>andThen\<close> concatenates plans.
\<close>

lemma follows_nothing: "follows plan w False w"
  by (simp add: follows_def new_events_def)

lemma follows_done: "follows [] w True w"
  by (simp add: follows_def new_events_def)

lemma follows_weaken: "follows plan w finished w' \<Longrightarrow> follows plan w False w'"
  by (simp add: follows_def)

lemma follows_events:
  "follows plan w finished w' \<longleftrightarrow>
     (\<exists>evs. history w' = history w @ evs \<and> prefix (map shape evs) plan
        \<and> list_all succeeded (butlast evs)
        \<and> (finished \<longrightarrow> map shape evs = plan \<and> list_all succeeded evs))"
proof
  assume "follows plan w finished w'"
  then show "\<exists>evs. history w' = history w @ evs \<and> prefix (map shape evs) plan
        \<and> list_all succeeded (butlast evs)
        \<and> (finished \<longrightarrow> map shape evs = plan \<and> list_all succeeded evs)"
    unfolding follows_def by blast
next
  assume "\<exists>evs. history w' = history w @ evs \<and> prefix (map shape evs) plan
        \<and> list_all succeeded (butlast evs)
        \<and> (finished \<longrightarrow> map shape evs = plan \<and> list_all succeeded evs)"
  then obtain evs where evs: "history w' = history w @ evs" "prefix (map shape evs) plan"
      "list_all succeeded (butlast evs)"
      "finished \<longrightarrow> map shape evs = plan \<and> list_all succeeded evs"
    by blast
  from evs(1) have "new_events w w' = evs"
    by (simp add: new_events_def)
  with evs show "follows plan w finished w'"
    by (simp add: follows_def)
qed

lemma follows_seq:
  assumes "follows plan1 w True w1" and "follows plan2 w1 finished w2"
  shows "follows (plan1 @ plan2) w finished w2"
proof -
  from assms(1) obtain evs1 where 1: "history w1 = history w @ evs1" "map shape evs1 = plan1"
      "list_all succeeded evs1"
    unfolding follows_events by blast
  from assms(2) obtain evs2 where 2: "history w2 = history w1 @ evs2" "prefix (map shape evs2) plan2"
      "list_all succeeded (butlast evs2)"
      "finished \<longrightarrow> map shape evs2 = plan2 \<and> list_all succeeded evs2"
    unfolding follows_events by blast
  have "history w2 = history w @ (evs1 @ evs2)"
    using 1(1) 2(1) by simp
  moreover have "prefix (map shape (evs1 @ evs2)) (plan1 @ plan2)"
    using 1(2) 2(2) by simp
  moreover have "list_all succeeded (butlast (evs1 @ evs2))"
    using 1(3) 2(3) by (cases "evs2 = []") (auto simp: butlast_append list_all_iff dest: in_set_butlastD)
  moreover have "finished \<longrightarrow> map shape (evs1 @ evs2) = plan1 @ plan2 \<and> list_all succeeded (evs1 @ evs2)"
    using 1(2,3) 2(4) by simp
  ultimately show ?thesis
    unfolding follows_events by blast
qed

lemma follows_stop:
  assumes "follows plan1 w False w1"
  shows "follows (plan1 @ plan2) w False w1"
  using assms unfolding follows_def by (auto intro: prefix_prefix)

lemma follows_Run: "follows [RunStep dir argv] w (fst (Run dir argv w) = None) (snd (Run dir argv w))"
  by (simp add: follows_def new_events_def Run_def Let_def)

lemma follows_WriteFile:
  "follows [WriteStep p] w (fst (os_WriteFile p content w) = None) (snd (os_WriteFile p content w))"
  by (simp add: follows_def new_events_def os_WriteFile_def)

lemma follows_andThen:
  assumes "follows plan1 w (fst r = None) (snd r)"
    and "\<And>w1. follows plan2 w1 (fst (f w1) = None) (snd (f w1))"
  shows "follows (plan1 @ plan2) w (fst (andThen r f) = None) (snd (andThen r f))"
proof (cases "fst r")
  case None
  then have "andThen r f = f (snd r)"
    by (cases r) (simp add: andThen_def)
  with None assms(1) assms(2) [of "snd r"] show ?thesis
    by (simp add: follows_seq)
next
  case (Some err)
  then have "andThen r f = r"
    by (cases r) (simp add: andThen_def)
  with Some assms(1) show ?thesis
    by (simp add: follows_stop)
qed

lemma follows_Write:
  "follows [WriteStep (path_Join L baseDir VrsConfigFileName)] w
     (fst (Write L config baseDir w) = None) (snd (Write L config baseDir w))"
  by (cases "yaml_Marshal L config") (simp_all add: Write_def follows_nothing follows_WriteFile)

lemma follows_WriteAndCommit:
  "follows (config_steps L baseDir push message (Version config)) w
     (fst (WriteAndCommit L config baseDir True push message w) = None)
     (snd (WriteAndCommit L config baseDir True push message w))"
proof (cases push)
  case True
  have "follows ([WriteStep (path_Join L baseDir VrsConfigFileName)]
       @ [RunStep baseDir [''git'', ''add'', VrsConfigFileName]]
       @ [RunStep baseDir [''git'', ''commit'', ''-m'', message]]
       @ [RunStep baseDir [''git'', ''tag'', ''v'' @ Version config]]
       @ [RunStep baseDir [''git'', ''push'']]
       @ [RunStep baseDir [''git'', ''push'', ''--tags'']]) w
     (fst (WriteAndCommit L config baseDir True True message w) = None)
     (snd (WriteAndCommit L config baseDir True True message w))"
    unfolding WriteAndCommit_def if_True
    by (intro follows_andThen follows_Write follows_Run)
  with True show ?thesis
    by (simp add: config_steps_def)
next
  case False
  have "follows ([WriteStep (path_Join L baseDir VrsConfigFileName)]
       @ [RunStep baseDir [''git'', ''add'', VrsConfigFileName]]
       @ [RunStep baseDir [''git'', ''commit'', ''-m'', message]]
       @ [RunStep baseDir [''git'', ''tag'', ''v'' @ Version config]] @ []) w
     (fst (WriteAndCommit L config baseDir True False message w) = None)
     (snd (WriteAndCommit L config baseDir True False message w))"
    unfolding WriteAndCommit_def if_True if_False
    by (intro follows_andThen follows_Write follows_Run) (simp add: follows_done)
  with False show ?thesis
    by (simp add: config_steps_def)
qed

lemma follows_bumpInFile:
  "follows (file_steps L baseDir file) w
     (fst (bumpInFile L baseDir True file oldVersion oldExpression newVersion w) = None)
     (snd (bumpInFile L baseDir True file oldVersion oldExpression newVersion w))"
proof -
  have steps: "\<And>bumped. follows ([WriteStep (path_Join L baseDir file)]
       @ [RunStep baseDir [''git'', ''add'', file]]
       @ [RunStep baseDir [''git'', ''commit'', ''-m'', ''Bumped version.'']]) w
     (fst (andThen (os_WriteFile (path_Join L baseDir file) bumped w) (\<lambda>w.
            andThen (Run baseDir [''git'', ''add'', file] w) (\<lambda>w.
              Run baseDir [''git'', ''commit'', ''-m'', ''Bumped version.''] w))) = None)
     (snd (andThen (os_WriteFile (path_Join L baseDir file) bumped w) (\<lambda>w.
            andThen (Run baseDir [''git'', ''add'', file] w) (\<lambda>w.
              Run baseDir [''git'', ''commit'', ''-m'', ''Bumped version.''] w))))"
    by (intro follows_andThen follows_WriteFile follows_Run)
  show ?thesis
    using steps
    by (auto simp: bumpInFile_def Let_def file_steps_def follows_nothing split: sum.splits)
qed

lemma follows_bumpSyncFiles:
  "follows (files_steps L baseDir targets) w
     (fst (bumpSyncFiles L baseDir True oldVersion newVersion targets w) = None)
     (snd (bumpSyncFiles L baseDir True oldVersion newVersion targets w))"
proof (induction targets arbitrary: w)
  case Nil
  then show ?case by (simp add: files_steps_def follows_done)
next
  case (Cons f targets)
  have "follows (file_steps L baseDir (SyncFile.Name f)) w
     (fst (bumpSyncFile L baseDir True oldVersion newVersion f w) = None)
     (snd (bumpSyncFile L baseDir True oldVersion newVersion f w))"
    by (simp add: bumpSyncFile_def follows_bumpInFile)
  from follows_andThen [OF this Cons.IH] show ?case
    by (simp add: files_steps_def)
qed


lemma files_steps_append:
  "files_steps L baseDir (xs @ ys) = files_steps L baseDir xs @ files_steps L baseDir ys"
  by (simp add: files_steps_def)

lemma follows_bumpProfile:
  "follows (files_steps L baseDir (profile_files active profile)) w
     (fst (bumpProfile L baseDir True oldVersion newVersion profile active w) = Return None)
     (snd (bumpProfile L baseDir True oldVersion newVersion profile active w))"
proof (induction active)
  case Nil
  then show ?case
    by (simp add: profile_files_def files_steps_def follows_done split: option.splits)
next
  case (Cons a active)
  show ?case
  proof (cases profile)
    case None
    then show ?thesis by (simp add: follows_nothing)
  next
    case (Some p)
    show ?thesis
    proof (cases "a = Profile.Name p")
      case True
      show ?thesis
      proof (cases "Profile.Sync p")
        case None
        with Some True show ?thesis
          by (simp add: profile_files_def sync_files_def files_steps_def follows_done)
      next
        case (Some sync)
        with \<open>profile = Some p\<close> True
          follows_bumpSyncFiles [of L baseDir "Files sync" w oldVersion newVersion]
        show ?thesis
          by (auto simp: profile_files_def sync_files_def split: prod.splits)
      qed
    next
      case False
      with Some Cons show ?thesis
        by (simp add: profile_files_def)
    qed
  qed
qed

lemma follows_bumpProfiles:
  "follows (files_steps L baseDir (concat (map (profile_files active) profiles))) w
     (fst (bumpProfiles L baseDir True oldVersion newVersion active profiles w) = Return None)
     (snd (bumpProfiles L baseDir True oldVersion newVersion active profiles w))"
proof (induction profiles arbitrary: w)
  case Nil
  then show ?case by (simp add: files_steps_def follows_done)
next
  case (Cons profile profiles)
  let ?r = "bumpProfile L baseDir True oldVersion newVersion profile active w"
  have first: "follows (files_steps L baseDir (profile_files active profile)) w
      (fst ?r = Return None) (snd ?r)"
    by (rule follows_bumpProfile)
  show ?case
  proof (cases "fst ?r = Return None")
    case True
    then have "bumpProfiles L baseDir True oldVersion newVersion active (profile # profiles) w
        = bumpProfiles L baseDir True oldVersion newVersion active profiles (snd ?r)"
      by (cases ?r) simp
    with True first Cons.IH [of "snd ?r"] show ?thesis
      by (simp add: files_steps_append follows_seq)
  next
    case False
    then have "bumpProfiles L baseDir True oldVersion newVersion active (profile # profiles) w = ?r"
      by (cases ?r) (auto split: go.splits option.splits)
    with False first show ?thesis
      by (simp add: files_steps_append follows_stop)
  qed
qed

lemma follows_bumpSync:
  "follows (files_steps L baseDir (sync_targets config active)) w
     (fst (bumpSync L baseDir True active oldVersion config w) = Return None)
     (snd (bumpSync L baseDir True active oldVersion config w))"
proof -
  let ?r = "case VrsConfig.Sync config of None \<Rightarrow> (None, w)
     | Some sync \<Rightarrow> bumpSyncFiles L baseDir True oldVersion (Version config) (Files sync) w"
  have first: "follows (files_steps L baseDir (sync_files (VrsConfig.Sync config))) w
      (fst ?r = None) (snd ?r)"
    by (cases "VrsConfig.Sync config")
      (simp_all add: sync_files_def files_steps_def follows_done follows_bumpSyncFiles [unfolded files_steps_def])
  show ?thesis
  proof (cases "fst ?r")
    case None
    then have "bumpSync L baseDir True active oldVersion config w
        = bumpProfiles L baseDir True oldVersion (Version config) active (Profiles config) (snd ?r)"
      by (cases ?r) (simp add: bumpSync_def)
    with None first follows_bumpProfiles [of L baseDir active "Profiles config" "snd ?r"]
    show ?thesis
      by (simp add: sync_targets_def files_steps_append follows_seq)
  next
    case (Some err)
    then have "bumpSync L baseDir True active oldVersion config w = (Return (Some err), snd ?r)"
      by (cases ?r) (simp add: bumpSync_def)
    with Some first show ?thesis
      by (simp add: sync_targets_def files_steps_append follows_stop)
  qed
qed

lemma sync_targets_Version: "sync_targets (config\<lparr>Version := v\<rparr>) active = sync_targets config active"
  by (simp add: sync_targets_def)

lemma Bump_unfold:
  assumes "(case options of None \<Rightarrow> NewDefaultBumpOptions w | Some given \<Rightarrow> Inr given) = Inr opts"
    and "ParseVersioonConfig L (Basedir opts) w = Inr config"
    and "Split (Version config) ''.'' = x # y # z # rest"
    and "Atoi y = Inr n"
  shows "Bump L options w =
           (case WriteAndCommit L (config\<lparr>Version := Sprintf_version x (wrapInt (n + 1)) z\<rparr>)
                   (Basedir opts) (GitCommit opts) (GitPush opts) ''Version bump.'' w of
              (Some err, w') \<Rightarrow> (Return (Some err), w')
            | (None, w') \<Rightarrow>
                bumpSync L (Basedir opts) (GitCommit opts) (ActiveProfiles opts) (Version config)
                  (config\<lparr>Version := Sprintf_version x (wrapInt (n + 1)) z\<rparr>) w')"
  using assms by (simp add: Bump_def Let_def)

lemma follows_Bump:
  assumes "(case options of None \<Rightarrow> NewDefaultBumpOptions w | Some given \<Rightarrow> Inr given) = Inr opts"
    and "ParseVersioonConfig L (Basedir opts) w = Inr config"
    and "Split (Version config) ''.'' = x # y # z # rest"
    and "Atoi y = Inr n"
    and "GitCommit opts"
  shows "follows
           (config_steps L (Basedir opts) (GitPush opts) ''Version bump.''
              (Sprintf_version x (wrapInt (n + 1)) z)
            @ files_steps L (Basedir opts) (sync_targets config (ActiveProfiles opts)))
           w (fst (Bump L options w) = Return None) (snd (Bump L options w))"
proof -
  let ?config = "config\<lparr>Version := Sprintf_version x (wrapInt (n + 1)) z\<rparr>"
  let ?r = "WriteAndCommit L ?config (Basedir opts) True (GitPush opts) ''Version bump.'' w"
  have first: "follows (config_steps L (Basedir opts) (GitPush opts) ''Version bump.''
      (Sprintf_version x (wrapInt (n + 1)) z)) w (fst ?r = None) (snd ?r)"
    using follows_WriteAndCommit [of L "Basedir opts" "GitPush opts" "''Version bump.''" ?config w]
    by simp
  show ?thesis
  proof (cases "fst ?r")
    case None
    then have "Bump L options w
        = bumpSync L (Basedir opts) True (ActiveProfiles opts) (Version config) ?config (snd ?r)"
      using Bump_unfold [OF assms(1-4)] assms(5) by (cases ?r) simp
    with None first
      follows_bumpSync [of L "Basedir opts" ?config "ActiveProfiles opts" "snd ?r" "Version config"]
    show ?thesis
      by (simp add: sync_targets_Version follows_seq)
  next
    case (Some err)
    then have "Bump L options w = (Return (Some err), snd ?r)"
      using Bump_unfold [OF assms(1-4)] assms(5) by (cases ?r) simp
    with Some first show ?thesis
      by (simp add: follows_stop)
  qed
qed

text \<open>
  C2. In a bump with commit mode on, the new events of the history carry out, in this
  order and from the start: the write of the configuration file, \<open>git add vrs.yml\<close>,
  \<open>git commit -m "Version bump."\<close>, \<open>git tag v<newVersion>\<close> (then the two pushes in
  push mode), and after that, for each sync target in turn, the write of that file,
  \<open>git add\<close> of that file and \<open>git commit -m "Bumped version."\<close>. Every event but the
  last one succeeded, so a sync target is only written after the tag was created, and a
  bump that returns nil has carried out the whole plan.
\<close>

theorem Bump_commits_config_before_sync:
  assumes "(case options of None \<Rightarrow> NewDefaultBumpOptions w | Some given \<Rightarrow> Inr given) = Inr opts"
    and "ParseVersioonConfig L (Basedir opts) w = Inr config"
    and "Split (Version config) ''.'' = x # y # z # rest"
    and "Atoi y = Inr n"
    and "GitCommit opts"
  shows "\<exists>evs. history (snd (Bump L options w)) = history w @ evs
           \<and> prefix (map shape evs)
               (config_steps L (Basedir opts) (GitPush opts) ''Version bump.''
                  (Sprintf_version x (wrapInt (n + 1)) z)
                @ files_steps L (Basedir opts) (sync_targets config (ActiveProfiles opts)))
           \<and> list_all succeeded (butlast evs)
           \<and> (fst (Bump L options w) = Return None \<longrightarrow>
                map shape evs =
                  config_steps L (Basedir opts) (GitPush opts) ''Version bump.''
                    (Sprintf_version x (wrapInt (n + 1)) z)
                  @ files_steps L (Basedir opts) (sync_targets config (ActiveProfiles opts))
                \<and> list_all succeeded evs)"
  using follows_Bump [OF assms] unfolding follows_events .

theorem Bump_commits_config_before_sync_witness:
  "ParseVersioonConfig (fake_libs (example_docs [''1.4.0'', ''1.5.0''])) ''/repo''
      (example_world ''1.4.0'') = Inr (example_config ''1.4.0'')
   \<and> Split ''1.4.0'' ''.'' = [''1'', ''4'', ''0'']
   \<and> Atoi ''4'' = Inr 4
   \<and> GitCommit example_options
   \<and> fst (Bump (fake_libs (example_docs [''1.4.0'', ''1.5.0''])) (Some example_options)
        (example_world ''1.4.0'')) = Return None
   \<and> map shape (history (snd (Bump (fake_libs (example_docs [''1.4.0'', ''1.5.0'']))
        (Some example_options) (example_world ''1.4.0'')))) =
       [WriteStep ''/repo/vrs.yml'',
        RunStep ''/repo'' [''git'', ''add'', ''vrs.yml''],
        RunStep ''/repo'' [''git'', ''commit'', ''-m'', ''Version bump.''],
        RunStep ''/repo'' [''git'', ''tag'', ''v1.5.0''],
        WriteStep ''/repo/README.md'',
        RunStep ''/repo'' [''git'', ''add'', ''README.md''],
        RunStep ''/repo'' [''git'', ''commit'', ''-m'', ''Bumped version.''],
        WriteStep ''/repo/version.go'',
        RunStep ''/repo'' [''git'', ''add'', ''version.go''],
        RunStep ''/repo'' [''git'', ''commit'', ''-m'', ''Bumped version.''],
        WriteStep ''/repo/guide.txt'',
        RunStep ''/repo'' [''git'', ''add'', ''guide.txt''],
        RunStep ''/repo'' [''git'', ''commit'', ''-m'', ''Bumped version.''],
        WriteStep ''/repo/faq.txt'',
        RunStep ''/repo'' [''git'', ''add'', ''faq.txt''],
        RunStep ''/repo'' [''git'', ''commit'', ''-m'', ''Bumped version.'']]"
proof -
  let ?L = "fake_libs (example_docs [''1.4.0'', ''1.5.0''])"
  let ?w = "example_world ''1.4.0''"
  have opts: "(case Some example_options of None \<Rightarrow> NewDefaultBumpOptions ?w
         | Some given \<Rightarrow> Inr given) = Inr example_options"
    by simp
  have parse: "ParseVersioonConfig ?L (Basedir example_options) ?w = Inr (example_config ''1.4.0'')"
    by (simp add: ParseVersioonConfig_def eval_world eval_examples)
  have parts: "Split (Version (example_config ''1.4.0'')) ''.'' = ''1'' # ''4'' # ''0'' # []"
    by (simp add: example_config_def Split_def)
  have minor: "Atoi ''4'' = Inr 4"
    by (simp add: eval_strings)
  have commit: "GitCommit example_options"
    by (simp add: example_options_def)
  have finished: "fst (Bump ?L (Some example_options) ?w) = Return None"
    by (simp add: Bump_def ParseVersioonConfig_def WriteAndCommit_def Write_def bumpSync_def
        bumpSyncFile_def bumpInFile_def ReplaceAll_def ReplaceAllString_def slice_def
        eval_world eval_examples eval_strings)
  have start: "history ?w = []"
    by (simp add: example_world_def fair_world_def)
  have plan: "config_steps ?L (Basedir example_options) (GitPush example_options) ''Version bump.''
        (Sprintf_version ''1'' (wrapInt (4 + 1)) ''0'')
      @ files_steps ?L (Basedir example_options)
          (sync_targets (example_config ''1.4.0'') (ActiveProfiles example_options)) =
       [WriteStep ''/repo/vrs.yml'',
        RunStep ''/repo'' [''git'', ''add'', ''vrs.yml''],
        RunStep ''/repo'' [''git'', ''commit'', ''-m'', ''Version bump.''],
        RunStep ''/repo'' [''git'', ''tag'', ''v1.5.0''],
        WriteStep ''/repo/README.md'',
        RunStep ''/repo'' [''git'', ''add'', ''README.md''],
        RunStep ''/repo'' [''git'', ''commit'', ''-m'', ''Bumped version.''],
        WriteStep ''/repo/version.go'',
        RunStep ''/repo'' [''git'', ''add'', ''version.go''],
        RunStep ''/repo'' [''git'', ''commit'', ''-m'', ''Bumped version.''],
        WriteStep ''/repo/guide.txt'',
        RunStep ''/repo'' [''git'', ''add'', ''guide.txt''],
        RunStep ''/repo'' [''git'', ''commit'', ''-m'', ''Bumped version.''],
        WriteStep ''/repo/faq.txt'',
        RunStep ''/repo'' [''git'', ''add'', ''faq.txt''],
        RunStep ''/repo'' [''git'', ''commit'', ''-m'', ''Bumped version.'']]"
    by (simp add: config_steps_def files_steps_def file_steps_def sync_targets_def sync_files_def
        profile_files_def example_config_def example_options_def fake_libs_def VrsConfigFileName_def
        eval_strings)
  from Bump_commits_config_before_sync [OF opts parse parts minor commit] finished start plan
  have "map shape (history (snd (Bump ?L (Some example_options) ?w))) =
       [WriteStep ''/repo/vrs.yml'',
        RunStep ''/repo'' [''git'', ''add'', ''vrs.yml''],
        RunStep ''/repo'' [''git'', ''commit'', ''-m'', ''Version bump.''],
        RunStep ''/repo'' [''git'', ''tag'', ''v1.5.0''],
        WriteStep ''/repo/README.md'',
        RunStep ''/repo'' [''git'', ''add'', ''README.md''],
        RunStep ''/repo'' [''git'', ''commit'', ''-m'', ''Bumped version.''],
        WriteStep ''/repo/version.go'',
        RunStep ''/repo'' [''git'', ''add'', ''version.go''],
        RunStep ''/repo'' [''git'', ''commit'', ''-m'', ''Bumped version.''],
        WriteStep ''/repo/guide.txt'',
        RunStep ''/repo'' [''git'', ''add'', ''guide.txt''],
        RunStep ''/repo'' [''git'', ''commit'', ''-m'', ''Bumped version.''],
        WriteStep ''/repo/faq.txt'',
        RunStep ''/repo'' [''git'', ''add'', ''faq.txt''],
        RunStep ''/repo'' [''git'', ''commit'', ''-m'', ''Bumped version.'']]"
    by auto
  with parse parts minor commit finished show ?thesis
    by (simp add: example_options_def example_config_def)
qed

section \<open>The sync targets and their order\<close>











section \<open>What is on disk after a write\<close>

lemma Run_disk:
  "files (snd (Run dir argv w)) = files w \<and> unreadable (snd (Run dir argv w)) = unreadable w
   \<and> cwd (snd (Run dir argv w)) = cwd w"
  by (simp add: Run_def Let_def)

lemma andThen_disk:
  assumes "\<And>w1. files (snd (f w1)) = files w1 \<and> unreadable (snd (f w1)) = unreadable w1
      \<and> cwd (snd (f w1)) = cwd w1"
  shows "files (snd (andThen r f)) = files (snd r) \<and> unreadable (snd (andThen r f)) = unreadable (snd r)
      \<and> cwd (snd (andThen r f)) = cwd (snd r)"
  using assms by (cases r) (simp add: andThen_def split: option.splits)

lemma andThen_Run_disk:
  assumes "\<And>w1. files (snd (f w1)) = files w1 \<and> unreadable (snd (f w1)) = unreadable w1
      \<and> cwd (snd (f w1)) = cwd w1"
  shows "files (snd (andThen (Run dir argv w) f)) = files w
      \<and> unreadable (snd (andThen (Run dir argv w) f)) = unreadable w
      \<and> cwd (snd (andThen (Run dir argv w) f)) = cwd w"
  using andThen_disk [of f "Run dir argv w", OF assms] by (simp add: Run_disk)

lemma commit_steps_disk:
  "files (snd (if commit then
         andThen (Run baseDir [''git'', ''add'', VrsConfigFileName] w) (\<lambda>w.
         andThen (Run baseDir [''git'', ''commit'', ''-m'', commitMessage] w) (\<lambda>w.
         andThen (Run baseDir [''git'', ''tag'', ''v'' @ version] w) (\<lambda>w.
           if push then
             andThen (Run baseDir [''git'', ''push''] w) (\<lambda>w.
               Run baseDir [''git'', ''push'', ''--tags''] w)
           else (None, w))))
       else (None, w))) = files w
   \<and> unreadable (snd (if commit then
         andThen (Run baseDir [''git'', ''add'', VrsConfigFileName] w) (\<lambda>w.
         andThen (Run baseDir [''git'', ''commit'', ''-m'', commitMessage] w) (\<lambda>w.
         andThen (Run baseDir [''git'', ''tag'', ''v'' @ version] w) (\<lambda>w.
           if push then
             andThen (Run baseDir [''git'', ''push''] w) (\<lambda>w.
               Run baseDir [''git'', ''push'', ''--tags''] w)
           else (None, w))))
       else (None, w))) = unreadable w
   \<and> cwd (snd (if commit then
         andThen (Run baseDir [''git'', ''add'', VrsConfigFileName] w) (\<lambda>w.
         andThen (Run baseDir [''git'', ''commit'', ''-m'', commitMessage] w) (\<lambda>w.
         andThen (Run baseDir [''git'', ''tag'', ''v'' @ version] w) (\<lambda>w.
           if push then
             andThen (Run baseDir [''git'', ''push''] w) (\<lambda>w.
               Run baseDir [''git'', ''push'', ''--tags''] w)
           else (None, w))))
       else (None, w))) = cwd w"
  by (cases commit; cases push) (simp_all add: andThen_Run_disk Run_disk)

lemma WriteAndCommit_disk:
  "files (snd (WriteAndCommit L config baseDir commit push message w))
     = files (snd (Write L config baseDir w))
   \<and> unreadable (snd (WriteAndCommit L config baseDir commit push message w))
     = unreadable (snd (Write L config baseDir w))
   \<and> cwd (snd (WriteAndCommit L config baseDir commit push message w))
     = cwd (snd (Write L config baseDir w))"
  unfolding WriteAndCommit_def by (rule andThen_disk) (rule commit_steps_disk)

lemma Write_disk:
  assumes "yaml_Marshal L config = Inr yml"
    and "path_Join L baseDir VrsConfigFileName \<notin> unwritable w"
  shows "files (snd (Write L config baseDir w)) = (files w)(path_Join L baseDir VrsConfigFileName \<mapsto> yml)
    \<and> unreadable (snd (Write L config baseDir w)) = unreadable w
    \<and> cwd (snd (Write L config baseDir w)) = cwd w"
  using assms by (simp add: Write_def os_WriteFile_def)

text \<open>
  C9. \<open>Init\<close> goes straight to \<open>WriteAndCommit\<close> with a configuration of version
  \<open>0.0.0\<close> and the commit message \<open>Initialized versioon file.\<close>, whatever is at the
  path of the configuration file before. Where the file can be written and read, and
  the YAML codec reads back what it wrote, \<open>ReadCurrentVersion\<close> on the same base
  directory then returns \<open>0.0.0\<close>.
\<close>

theorem Init_then_ReadCurrentVersion:
  assumes "(case options of None \<Rightarrow> NewDefaultInitOptions w | Some given \<Rightarrow> Inr given) = Inr opts"
    and "(case roptions of None \<Rightarrow> NewDefaultReadCurrentOptions w | Some given \<Rightarrow> Inr given) = Inr ropts"
    and "Basedir ropts = Basedir opts"
    and "yaml_Marshal L \<lparr>Version = ''0.0.0'', Sync = None, Profiles = []\<rparr> = Inr yml"
    and "yaml_Unmarshal L yml = Inr \<lparr>Version = ''0.0.0'', Sync = None, Profiles = []\<rparr>"
    and "path_Join L (Basedir opts) VrsConfigFileName \<notin> unwritable w"
    and "path_Join L (Basedir opts) VrsConfigFileName \<notin> unreadable w"
  shows "Init L options w =
           WriteAndCommit L \<lparr>Version = ''0.0.0'', Sync = None, Profiles = []\<rparr> (Basedir opts)
             (GitCommit opts) (GitPush opts) ''Initialized versioon file.'' w
         \<and> files (snd (Init L options w)) (path_Join L (Basedir opts) VrsConfigFileName) = Some yml
         \<and> ReadCurrentVersion L roptions (snd (Init L options w)) = Inr ''0.0.0''"
proof -
  let ?c = "\<lparr>Version = ''0.0.0'', Sync = None, Profiles = []\<rparr>"
  let ?p = "path_Join L (Basedir opts) VrsConfigFileName"
  let ?w = "snd (Init L options w)"
  have init: "Init L options w =
      WriteAndCommit L ?c (Basedir opts) (GitCommit opts) (GitPush opts) ''Initialized versioon file.'' w"
    using assms(1) by (simp add: Init_def)
  have disk: "files ?w = (files w)(?p \<mapsto> yml)" "unreadable ?w = unreadable w" "cwd ?w = cwd w"
    using WriteAndCommit_disk [of L ?c "Basedir opts" "GitCommit opts" "GitPush opts"
        "''Initialized versioon file.''" w]
      Write_disk [OF assms(4) assms(6)]
    by (simp_all add: init)
  have ropts: "(case roptions of None \<Rightarrow> NewDefaultReadCurrentOptions ?w | Some given \<Rightarrow> Inr given) = Inr ropts"
    using assms(2) disk(3)
    by (cases roptions) (simp_all add: NewDefaultReadCurrentOptions_def os_Getwd_def)
  have "ParseVersioonConfig L (Basedir ropts) ?w = Inr ?c"
    using assms(3,5,7) disk
    by (simp add: ParseVersioonConfig_def os_Stat_def os_ReadFile_def os_IsNotExist_def)
  then have "ReadCurrentVersion L roptions ?w = Inr ''0.0.0''"
    using ropts by (simp add: ReadCurrentVersion_def)
  with init disk(1) show ?thesis
    by simp
qed

theorem Init_then_ReadCurrentVersion_witness:
  "yaml_Marshal (fake_libs (plain_docs [''0.0.0''])) \<lparr>Version = ''0.0.0'', Sync = None, Profiles = []\<rparr>
      = Inr ''version: 0.0.0''
   \<and> yaml_Unmarshal (fake_libs (plain_docs [''0.0.0''])) ''version: 0.0.0''
      = Inr \<lparr>Version = ''0.0.0'', Sync = None, Profiles = []\<rparr>
   \<and> ''/repo/vrs.yml'' \<notin> unwritable (plain_world ''3.1.4'')
   \<and> ''/repo/vrs.yml'' \<notin> unreadable (plain_world ''3.1.4'')
   \<and> files (plain_world ''3.1.4'') ''/repo/vrs.yml'' = Some ''version: 3.1.4''
   \<and> files (snd (Init (fake_libs (plain_docs [''0.0.0'']))
        (Some \<lparr>Basedir = ''/repo'', GitCommit = True, GitPush = True\<rparr>) (plain_world ''3.1.4'')))
        ''/repo/vrs.yml'' = Some ''version: 0.0.0''
   \<and> ReadCurrentVersion (fake_libs (plain_docs [''0.0.0'']))
        (Some \<lparr>Basedir = ''/repo'', GitCommit = False, GitPush = False\<rparr>)
        (snd (Init (fake_libs (plain_docs [''0.0.0'']))
          (Some \<lparr>Basedir = ''/repo'', GitCommit = True, GitPush = True\<rparr>) (plain_world ''3.1.4'')))
      = Inr ''0.0.0''"
proof -
  let ?L = "fake_libs (plain_docs [''0.0.0''])"
  let ?w = "plain_world ''3.1.4''"
  let ?o = "\<lparr>Basedir = ''/repo'', GitCommit = True, GitPush = True\<rparr>"
  let ?ro = "\<lparr>Basedir = ''/repo'', GitCommit = False, GitPush = False\<rparr>"
  have opts: "(case Some ?o of None \<Rightarrow> NewDefaultInitOptions ?w | Some given \<Rightarrow> Inr given) = Inr ?o"
    by simp
  have ropts: "(case Some ?ro of None \<Rightarrow> NewDefaultReadCurrentOptions ?w | Some given \<Rightarrow> Inr given)
      = Inr ?ro"
    by simp
  have same: "Basedir ?ro = Basedir ?o"
    by simp
  have marshal: "yaml_Marshal ?L \<lparr>Version = ''0.0.0'', Sync = None, Profiles = []\<rparr>
      = Inr ''version: 0.0.0''"
    by (simp add: eval_world eval_examples)
  have unmarshal: "yaml_Unmarshal ?L ''version: 0.0.0''
      = Inr \<lparr>Version = ''0.0.0'', Sync = None, Profiles = []\<rparr>"
    by (simp add: eval_world eval_examples)
  have join: "path_Join ?L (Basedir ?o) VrsConfigFileName = ''/repo/vrs.yml''"
    by (simp add: eval_world)
  have writable: "path_Join ?L (Basedir ?o) VrsConfigFileName \<notin> unwritable ?w"
    by (simp add: eval_world eval_examples)
  have readable: "path_Join ?L (Basedir ?o) VrsConfigFileName \<notin> unreadable ?w"
    by (simp add: eval_world eval_examples)
  have before: "files ?w ''/repo/vrs.yml'' = Some ''version: 3.1.4''"
    by (simp add: eval_world eval_examples)
  from Init_then_ReadCurrentVersion [OF opts ropts same marshal unmarshal writable readable,
      THEN conjunct2]
    marshal unmarshal writable readable before
  show ?thesis
    unfolding join by simp
qed

lemma file_commit_disk:
  "files (snd (if gitCommit then
        andThen (Run baseDir [''git'', ''add'', file] w) (\<lambda>w.
          Run baseDir [''git'', ''commit'', ''-m'', ''Bumped version.''] w)
      else (None, w))) = files w"
  using andThen_Run_disk [of "\<lambda>w. Run baseDir [''git'', ''commit'', ''-m'', ''Bumped version.''] w"]
  by (simp add: Run_disk)

lemma bumpInFile_files:
  assumes "os_ReadFile w (path_Join L baseDir file) = Inr content"
    and "path_Join L baseDir file \<notin> unwritable w"
    and "(if oldVersion \<noteq> [] then Inr (ReplaceAll content oldVersion newVersion)
          else (case regexp_Compile L oldExpression of
                  Inl msg \<Rightarrow> Inl (RegexpError msg)
                | Inr r \<Rightarrow> Inr (ReplaceAllString L r content newVersion))) = Inr bumped"
  shows "files (snd (bumpInFile L baseDir gitCommit file oldVersion oldExpression newVersion w))
           = (files w)(path_Join L baseDir file \<mapsto> bumped)
       \<and> (fst (bumpInFile L baseDir gitCommit file oldVersion oldExpression newVersion w) = None
          \<or> fst (bumpInFile L baseDir gitCommit file oldVersion oldExpression newVersion w) = Some ExecError)
       \<and> (fst (bumpInFile L baseDir False file oldVersion oldExpression newVersion w) = None)"
proof -
  let ?p = "path_Join L baseDir file"
  let ?w1 = "w\<lparr>files := (files w)(?p \<mapsto> bumped), history := history w @ [Wrote ?p bumped]\<rparr>"
  let ?tail = "\<lambda>c w. if c then
        andThen (Run baseDir [''git'', ''add'', file] w) (\<lambda>w.
          Run baseDir [''git'', ''commit'', ''-m'', ''Bumped version.''] w)
      else (None, w)"
  have eq: "\<And>c. bumpInFile L baseDir c file oldVersion oldExpression newVersion w = ?tail c ?w1"
    using assms by (simp add: bumpInFile_def Let_def os_WriteFile_def andThen_def)
  have "files (snd (?tail gitCommit ?w1)) = files ?w1"
    by (rule file_commit_disk)
  moreover have "fst (?tail gitCommit ?w1) = None \<or> fst (?tail gitCommit ?w1) = Some ExecError"
    by (simp add: andThen_def Run_def Let_def)
  moreover have "fst (?tail False ?w1) = None"
    by simp
  ultimately show ?thesis
    unfolding eq by simp
qed




lemma Split_parts_nonempty: "Split v ''.'' = x # y # rest \<Longrightarrow> v \<noteq> []"
  by (auto simp: Split_def)

text \<open>
  C5. In literal mode (empty pattern), where the target can be read and written, the
  file is rewritten to its content with the successive occurrences of the old version
  replaced by the new one: the content is a list of pieces joined by the old version,
  none of which holds the old version, and the new content is the same pieces joined by
  the new version. Every other file stays as it was. When the old version does not occur,
  the files are as before. The rewrite itself returns no error; with commit mode on, the
  only error is a failing command. The old version is never empty when \<open>Bump\<close> gets
  this far, since it has been split into three parts (\<open>Split_parts_nonempty\<close>).
\<close>

theorem bumpInFile_literal:
  assumes "Pattern f = []"
    and "oldVersion \<noteq> []"
    and "os_ReadFile w (path_Join L baseDir (SyncFile.Name f)) = Inr content"
    and "path_Join L baseDir (SyncFile.Name f) \<notin> unwritable w"
  shows "files (snd (bumpSyncFile L baseDir gitCommit oldVersion newVersion f w))
           = (files w)(path_Join L baseDir (SyncFile.Name f) \<mapsto> Join (Split content oldVersion) newVersion)
         \<and> Join (Split content oldVersion) oldVersion = content
         \<and> (\<forall>piece \<in> set (Split content oldVersion). \<not> sublist oldVersion piece)
         \<and> (\<not> sublist oldVersion content \<longrightarrow>
              files (snd (bumpSyncFile L baseDir gitCommit oldVersion newVersion f w)) = files w)
         \<and> fst (bumpSyncFile L baseDir False oldVersion newVersion f w) = None
         \<and> (fst (bumpSyncFile L baseDir gitCommit oldVersion newVersion f w) = None
            \<or> fst (bumpSyncFile L baseDir gitCommit oldVersion newVersion f w) = Some ExecError)"
proof -
  let ?p = "path_Join L baseDir (SyncFile.Name f)"
  have mode: "\<And>c. bumpSyncFile L baseDir c oldVersion newVersion f w
      = bumpInFile L baseDir c (SyncFile.Name f) oldVersion [] newVersion w"
    using assms(1) by (simp add: bumpSyncFile_def)
  have bumped: "(if oldVersion \<noteq> [] then Inr (ReplaceAll content oldVersion newVersion)
          else (case regexp_Compile L [] of
                  Inl msg \<Rightarrow> Inl (RegexpError msg)
                | Inr r \<Rightarrow> Inr (ReplaceAllString L r content newVersion)))
        = Inr (Join (Split content oldVersion) newVersion)"
    using assms(2) by (simp add: ReplaceAll_Join_Split)
  note rewrite = bumpInFile_files [OF assms(3,4) bumped]
  have present: "files w ?p = Some content"
    using assms(3) by (auto simp: os_ReadFile_def split: option.splits if_splits)
  have "\<not> sublist oldVersion content \<longrightarrow> Join (Split content oldVersion) newVersion = content"
    using assms(2) ReplaceAll_Join_Split [of oldVersion content newVersion]
    by (auto simp: ReplaceAll_def replace_from_absent)
  then have absent: "\<not> sublist oldVersion content \<longrightarrow>
      (files w)(?p \<mapsto> Join (Split content oldVersion) newVersion) = files w"
    using present by (auto simp: fun_upd_idem)
  have pieces: "\<forall>piece \<in> set (Split content oldVersion). \<not> sublist oldVersion piece"
    using Split_pieces [OF assms(2)] by blast
  show ?thesis
    using rewrite [of gitCommit] absent pieces Join_Split [OF assms(2), of content]
    by (simp add: mode)
qed

theorem bumpInFile_literal_witness:
  "Pattern \<lparr>SyncFile.Name = ''README.md'', Pattern = []\<rparr> = []
   \<and> ''1.4.0'' \<noteq> []
   \<and> os_ReadFile (example_world ''1.4.0'') ''/repo/README.md'' = Inr ''get 1.4.0 or v1.4.0''
   \<and> ''/repo/README.md'' \<notin> unwritable (example_world ''1.4.0'')
   \<and> Split ''get 1.4.0 or v1.4.0'' ''1.4.0'' = [''get '', '' or v'', []]
   \<and> files (snd (bumpSyncFile (fake_libs []) ''/repo'' True ''1.4.0'' ''1.5.0''
        \<lparr>SyncFile.Name = ''README.md'', Pattern = []\<rparr> (example_world ''1.4.0'')))
        ''/repo/README.md'' = Some ''get 1.5.0 or v1.5.0''
   \<and> os_ReadFile (example_world ''1.4.0'') ''/repo/faq.txt'' = Inr ''no version here''
   \<and> \<not> sublist ''1.4.0'' ''no version here''
   \<and> files (snd (bumpSyncFile (fake_libs []) ''/repo'' True ''1.4.0'' ''1.5.0''
        \<lparr>SyncFile.Name = ''faq.txt'', Pattern = []\<rparr> (example_world ''1.4.0'')))
      = files (example_world ''1.4.0'')"
proof -
  let ?w = "example_world ''1.4.0''"
  let ?readme = "\<lparr>SyncFile.Name = ''README.md'', Pattern = []\<rparr>"
  let ?faq = "\<lparr>SyncFile.Name = ''faq.txt'', Pattern = []\<rparr>"
  have literal: "Pattern ?readme = []" "Pattern ?faq = []"
    by simp_all
  have old: "''1.4.0'' \<noteq> []"
    by simp
  have join: "path_Join (fake_libs []) ''/repo'' (SyncFile.Name ?readme) = ''/repo/README.md''"
      "path_Join (fake_libs []) ''/repo'' (SyncFile.Name ?faq) = ''/repo/faq.txt''"
    by (simp_all add: fake_libs_def)
  have read: "os_ReadFile ?w ''/repo/README.md'' = Inr ''get 1.4.0 or v1.4.0''"
      "os_ReadFile ?w ''/repo/faq.txt'' = Inr ''no version here''"
    by (simp_all add: os_ReadFile_def example_world_def fair_world_def)
  have writable: "''/repo/README.md'' \<notin> unwritable ?w" "''/repo/faq.txt'' \<notin> unwritable ?w"
    by (simp_all add: example_world_def fair_world_def)
  have pieces: "Split ''get 1.4.0 or v1.4.0'' ''1.4.0'' = [''get '', '' or v'', []]"
    by (simp add: Split_def)
  have absent: "\<not> sublist ''1.4.0'' ''no version here''"
    by (simp add: sublist_Cons_right)
  have "files (snd (bumpSyncFile (fake_libs []) ''/repo'' True ''1.4.0'' ''1.5.0'' ?readme ?w))
      ''/repo/README.md'' = Some ''get 1.5.0 or v1.5.0''"
    using bumpInFile_literal [OF literal(1) old read(1) [folded join(1)] writable(1) [folded join(1)],
        of True "''1.5.0''", THEN conjunct1]
    by (simp add: fake_libs_def pieces)
  moreover have "files (snd (bumpSyncFile (fake_libs []) ''/repo'' True ''1.4.0'' ''1.5.0'' ?faq ?w))
      = files ?w"
    using bumpInFile_literal [OF literal(2) old read(2) [folded join(2)] writable(2) [folded join(2)],
        of True "''1.5.0''"] absent
    by blast
  ultimately show ?thesis
    using literal old read writable pieces absent by simp
qed




end
